theory Spec2Isabelle
  imports Complex_Main
begin

section \<open>Proportional CPU resolver\<close>

text \<open>
  JavaScript numbers are modelled as HOL reals; the special values NaN and the infinities
  have no counterpart among them. In this section arithmetic is exact; the rounding of the
  machine is written out in the section on double-precision arithmetic below. A result that the
  source would compute from a missed table lookup (\<^verbatim>\<open>undefined\<close>, hence NaN) is the
  value \<open>None\<close>.

  The calibration table \<^verbatim>\<open>AWS_LAMBDA_CPU_RATIO\<close> is an object with integer keys; it is an
  association list here, in the order \<^verbatim>\<open>Object.keys\<close> enumerates it, and a property
  read \<^verbatim>\<open>AWS_LAMBDA_CPU_RATIO[x]\<close> is \<open>map_of\<close>.
\<close>

definition AWS_LAMBDA_CPU_RATIO :: "(real \<times> real) list" where
  "AWS_LAMBDA_CPU_RATIO =
     [(128, 0.0625), (256, 0.125), (512, 0.25), (1024, 0.5), (1536, 0.75),
      (2048, 1), (3008, 1.5), (4096, 2), (5120, 2.5), (6144, 3),
      (7168, 3.5), (8192, 4), (9216, 4.5), (10240, 5)]"

text \<open>\<^verbatim>\<open>Object.keys(AWS_LAMBDA_CPU_RATIO).map(Number).sort((a, b) => a - b)\<close>\<close>

definition ramValues :: "real list" where
  "ramValues = sort (map fst AWS_LAMBDA_CPU_RATIO)"





section \<open>Double-precision arithmetic\<close>

text \<open>
  The definitions above compute with exact reals. Where the validator compares a computed
  number with a tolerance, the rounding of the machine decides, so the arithmetic of
  JavaScript is written out: a number is a double (a real of the form \<open>m * 2 ^ k\<close> with a
  significand of 53 bits), a numeric literal denotes the double nearest to it, and every
  operation returns the double nearest to the exact result, the even one at a tie. The
  operands the validator meets keep all results far below the largest double, so overflow
  is not modelled.
\<close>

definition round_to_even :: "real \<Rightarrow> int" where
  "round_to_even y =
     (let n = \<lfloor>y\<rfloor>; r = y - of_int n
      in if r < 1 / 2 then n else if r > 1 / 2 then n + 1 else if even n then n else n + 1)"

text \<open>
  \<open>fl x\<close> is the double nearest to \<open>x\<close>: the spacing of the doubles around \<open>x\<close> is
  \<open>2 ^ (e - 52)\<close> where \<open>2 ^ e \<le> \<bar>x\<bar> < 2 ^ (e + 1)\<close>, and \<open>2 ^ (- 1074)\<close> below the
  smallest normal number.
\<close>

definition fl :: "real \<Rightarrow> real" where
  "fl x =
     (if x = 0 then 0
      else (let e = max \<lfloor>log 2 \<bar>x\<bar>\<rfloor> (- 1022);
                q = 2 powr (of_int e - 52)
            in of_int (round_to_even (x / q)) * q))"

text \<open>
  The resolver as the machine computes it: the loop and the clamp of \<^verbatim>\<open>getProportionalCpu\<close>
  with each subtraction, division, multiplication and addition rounded.
\<close>

fun interpolate_double :: "real list \<Rightarrow> real \<Rightarrow> real option option" where
  "interpolate_double (lower # upper # rest) ramMb =
     (if ramMb > lower \<and> ramMb < upper then
        Some (case (map_of AWS_LAMBDA_CPU_RATIO lower, map_of AWS_LAMBDA_CPU_RATIO upper) of
                (Some lowerCpu, Some upperCpu) \<Rightarrow>
                  (let ratio = fl (fl (ramMb - lower) / fl (upper - lower))
                   in Some (fl (lowerCpu + fl (fl (upperCpu - lowerCpu) * ratio))))
              | _ \<Rightarrow> None)
      else interpolate_double (upper # rest) ramMb)"
| "interpolate_double _ ramMb = None"

definition getProportionalCpu_double :: "real \<Rightarrow> real option" where
  "getProportionalCpu_double ramMb =
     (case map_of AWS_LAMBDA_CPU_RATIO ramMb of
        Some exact \<Rightarrow> Some exact
      | None \<Rightarrow>
         (case interpolate_double ramValues ramMb of
            Some found \<Rightarrow> found
          | None \<Rightarrow>
             (case ramValues of
                [] \<Rightarrow> None
              | first # _ \<Rightarrow>
                  if ramMb \<le> first then map_of AWS_LAMBDA_CPU_RATIO first
                  else map_of AWS_LAMBDA_CPU_RATIO (last ramValues))))"

section \<open>JavaScript values and the schema library\<close>

text \<open>
  The validator receives an \<^verbatim>\<open>unknown\<close> value. Plain data is enough for everything the
  schemas look at: a property read on an object is a lookup in its list of own properties,
  and a missing property reads as \<^verbatim>\<open>undefined\<close>.
\<close>

datatype jsval =
    JUndefined
  | JNull
  | JBool bool
  | JNum real
  | JNaN
  | JStr string
  | JArr "jsval list"
  | JObj "(string \<times> jsval) list"

fun get_prop :: "jsval \<Rightarrow> string \<Rightarrow> jsval" where
  "get_prop (JObj kv) k = (case map_of kv k of Some x \<Rightarrow> x | None \<Rightarrow> JUndefined)"
| "get_prop _ k = JUndefined"

text \<open>The type names the schema library reports in its messages.\<close>

fun parsedType :: "jsval \<Rightarrow> string" where
  "parsedType JUndefined = ''undefined''"
| "parsedType JNull = ''null''"
| "parsedType (JBool _) = ''boolean''"
| "parsedType (JNum _) = ''number''"
| "parsedType JNaN = ''nan''"
| "parsedType (JStr _) = ''string''"
| "parsedType (JArr _) = ''array''"
| "parsedType (JObj _) = ''object''"

text \<open>
  A message is a template literal. Its text is kept as it is; a number put into it is kept
  as the number (\<open>Num\<close> for the default conversion, \<open>Fixed2\<close> for
  \<^verbatim>\<open>toFixed(2)\<close>), since how the platform prints a number is not part of the validator.
\<close>

datatype frag = Txt string | Num real | Fixed2 real

type_synonym message = "frag list"

record zod_issue =
  issue_path :: "string list"
  issue_message :: message

text \<open>
  The result of parsing with a schema: the issues added to the shared context, in order, and
  the status with the parsed value (\<open>INVALID\<close> is the library's status
  \<^verbatim>\<open>aborted\<close>, which carries no value).
\<close>

datatype 'a parse_return = INVALID | DIRTY 'a | VALID 'a

type_synonym 'a schema = "string list \<Rightarrow> jsval \<Rightarrow> zod_issue list \<times> 'a parse_return"

fun map_return :: "('a \<Rightarrow> 'b) \<Rightarrow> 'a parse_return \<Rightarrow> 'b parse_return" where
  "map_return f INVALID = INVALID"
| "map_return f (DIRTY x) = DIRTY (f x)"
| "map_return f (VALID x) = VALID (f x)"

fun parsed :: "'a parse_return \<Rightarrow> 'a option" where
  "parsed INVALID = None"
| "parsed (DIRTY x) = Some x"
| "parsed (VALID x) = Some x"

definition sq :: string where "sq = [CHR 0x27]"
definition dq :: string where "dq = [CHR 0x22]"

fun join :: "string \<Rightarrow> string list \<Rightarrow> string" where
  "join sep [] = []"
| "join sep [x] = x"
| "join sep (x # y # ys) = x @ sep @ join sep (y # ys)"

definition joinValues :: "string list \<Rightarrow> string" where
  "joinValues vals = join '' | '' (map (\<lambda>s. sq @ s @ sq) vals)"

definition invalid_type :: "string list \<Rightarrow> string \<Rightarrow> jsval \<Rightarrow> zod_issue" where
  "invalid_type p expected v =
     \<lparr>issue_path = p,
      issue_message =
        [Txt (case v of JUndefined \<Rightarrow> ''Required''
              | _ \<Rightarrow> ''Expected '' @ expected @ '', received '' @ parsedType v)]\<rparr>"

datatype num_check = Min real string | Max real string

fun check_issue :: "string list \<Rightarrow> real \<Rightarrow> num_check \<Rightarrow> zod_issue list" where
  "check_issue p x (Min m msg) =
     (if x < m then [\<lparr>issue_path = p, issue_message = [Txt msg]\<rparr>] else [])"
| "check_issue p x (Max m msg) =
     (if x > m then [\<lparr>issue_path = p, issue_message = [Txt msg]\<rparr>] else [])"

definition z_number :: "num_check list \<Rightarrow> real schema" where
  "z_number checks p v =
     (case v of
        JNum x \<Rightarrow>
          (let issues = concat (map (check_issue p x) checks)
           in (issues, if issues = [] then VALID x else DIRTY x))
      | _ \<Rightarrow> ([invalid_type p ''number'' v], INVALID))"

definition z_string :: "string schema" where
  "z_string p v =
     (case v of JStr s \<Rightarrow> ([], VALID s) | _ \<Rightarrow> ([invalid_type p ''string'' v], INVALID))"

definition z_enum :: "string list \<Rightarrow> string schema" where
  "z_enum vals p v =
     (case v of
        JStr s \<Rightarrow>
          (if s \<in> set vals then ([], VALID s)
           else ([\<lparr>issue_path = p,
                   issue_message =
                     [Txt (''Invalid enum value. Expected '' @ joinValues vals @
                           '', received '' @ sq @ s @ sq)]\<rparr>], INVALID))
      | _ \<Rightarrow> ([invalid_type p (joinValues vals) v], INVALID))"

definition z_nullable :: "'a schema \<Rightarrow> 'a option schema" where
  "z_nullable inner p v =
     (case v of JNull \<Rightarrow> ([], VALID None)
      | _ \<Rightarrow> (case inner p v of (issues, r) \<Rightarrow> (issues, map_return Some r)))"

definition z_optional :: "'a schema \<Rightarrow> 'a option schema" where
  "z_optional inner p v =
     (case v of JUndefined \<Rightarrow> ([], VALID None)
      | _ \<Rightarrow> (case inner p v of (issues, r) \<Rightarrow> (issues, map_return Some r)))"

text \<open>
  \<^verbatim>\<open>.optional()\<close> on a schema that is optional already: the value is still the inner
  value or \<^verbatim>\<open>undefined\<close>.
\<close>

definition z_optional_again :: "'a option schema \<Rightarrow> 'a option schema" where
  "z_optional_again inner p v = (case v of JUndefined \<Rightarrow> ([], VALID None) | _ \<Rightarrow> inner p v)"

text \<open>
  An object schema parses every field of its shape, then merges the results: aborted as soon
  as one field is aborted, dirty when one is dirty. Keys outside the shape are dropped
  without an issue (none of the schemas below is \<^verbatim>\<open>.strict()\<close>).
\<close>

fun merge_field :: "('a \<Rightarrow> 'b) parse_return \<Rightarrow> 'a parse_return \<Rightarrow> 'b parse_return" where
  "merge_field INVALID _ = INVALID"
| "merge_field _ INVALID = INVALID"
| "merge_field (VALID f) (VALID x) = VALID (f x)"
| "merge_field (VALID f) (DIRTY x) = DIRTY (f x)"
| "merge_field (DIRTY f) (VALID x) = DIRTY (f x)"
| "merge_field (DIRTY f) (DIRTY x) = DIRTY (f x)"

text \<open>
  \<^verbatim>\<open>.superRefine(callback)\<close>: the callback runs on the parsed value unless the inner
  parse is aborted; each issue it adds gets the current path in front and makes the result
  dirty.
\<close>

definition superRefine :: "'a schema \<Rightarrow> ('a \<Rightarrow> zod_issue list) \<Rightarrow> 'a schema" where
  "superRefine inner refinement p v =
     (case inner p v of
        (issues, INVALID) \<Rightarrow> (issues, INVALID)
      | (issues, DIRTY x) \<Rightarrow>
          (issues @ map (\<lambda>i. i\<lparr>issue_path := p @ issue_path i\<rparr>) (refinement x), DIRTY x)
      | (issues, VALID x) \<Rightarrow>
          (let added = map (\<lambda>i. i\<lparr>issue_path := p @ issue_path i\<rparr>) (refinement x)
           in (issues @ added, if added = [] then VALID x else DIRTY x)))"

text \<open>
  What the code can throw, as far as the \<^verbatim>\<open>catch\<close> blocks look at it. They evaluate
  \<^verbatim>\<open>error instanceof Error ? error.message : 'Unknown error'\<close> inside a template: the
  thrown value is an \<^verbatim>\<open>Error\<close> with its message, or a value that is not an
  \<^verbatim>\<open>Error\<close>, or a value on which this evaluation throws in its turn, as with an
  \<^verbatim>\<open>Error\<close> whose \<^verbatim>\<open>message\<close> is a getter that throws (\<open>Unreadable e\<close> throws
  \<open>e\<close>). The type is a codatatype: an error whose getter throws the error itself is a
  value of it.
\<close>

codatatype js_error = ErrorObject string | NonError | Unreadable js_error


text \<open>\<^verbatim>\<open>error instanceof Error ? error.message : 'Unknown error'\<close>\<close>

fun error_description :: "js_error \<Rightarrow> js_error + string" where
  "error_description (ErrorObject msg) = Inr msg"
| "error_description NonError = Inr ''Unknown error''"
| "error_description (Unreadable e) = Inl e"

text \<open>
  \<^verbatim>\<open>.superRefine(callback)\<close> with a callback that may throw: what the callback throws
  leaves the parse, and the issues collected so far are lost with it. With a callback that
  returns it is \<open>superRefine\<close> (lemma \<open>superRefine_returns\<close> below).
\<close>

type_synonym 'a effects =
  "string list \<Rightarrow> jsval \<Rightarrow> js_error + zod_issue list \<times> 'a parse_return"

definition superRefine_throwing ::
  "'a schema \<Rightarrow> ('a \<Rightarrow> js_error + zod_issue list) \<Rightarrow> 'a effects" where
  "superRefine_throwing inner refinement p v =
     (case inner p v of
        (issues, INVALID) \<Rightarrow> Inr (issues, INVALID)
      | (issues, DIRTY x) \<Rightarrow>
          (case refinement x of
             Inl error \<Rightarrow> Inl error
           | Inr new \<Rightarrow>
               Inr (issues @ map (\<lambda>i. i\<lparr>issue_path := p @ issue_path i\<rparr>) new, DIRTY x))
      | (issues, VALID x) \<Rightarrow>
          (case refinement x of
             Inl error \<Rightarrow> Inl error
           | Inr new \<Rightarrow>
               (let added = map (\<lambda>i. i\<lparr>issue_path := p @ issue_path i\<rparr>) new
                in Inr (issues @ added, if added = [] then VALID x else DIRTY x))))"

text \<open>
  \<^verbatim>\<open>schema.parse\<close>: the parsed value, or what is thrown: the validation error with the
  issues, the library's own error when there is none, or what a callback threw.
\<close>

datatype thrown = ZodError "zod_issue list" | Thrown js_error

definition parse :: "'a effects \<Rightarrow> jsval \<Rightarrow> thrown + 'a" where
  "parse schema data =
     (case schema [] data of
        Inl error \<Rightarrow> Inl (Thrown error)
      | Inr (issues, VALID x) \<Rightarrow> Inr x
      | Inr (issues, _) \<Rightarrow>
          if issues = [] then Inl (Thrown (ErrorObject ''Validation failed but no issues detected.''))
          else Inl (ZodError issues))"

section \<open>The infrastructure schemas\<close>

record HandlerConfig =
  ram :: "real option"
  timeout :: "real option"
  cpu :: "real option"
  machineType :: "string option"

text \<open>
  \<open>messageGroupId\<close> is \<^verbatim>\<open>string | null | undefined\<close>: \<open>None\<close> is
  \<^verbatim>\<open>undefined\<close>, \<open>Some None\<close> is \<^verbatim>\<open>null\<close>.
\<close>

record QueueConfig =
  type :: "string option"
  visibilityTimeout :: "real option"
  messageGroupId :: "string option option"
  maxRetries :: "real option"
  retryStrategy :: "string option"

record InfrastructureConfig =
  handler :: "HandlerConfig option"
  queue :: "QueueConfig option"

definition MIN_RAM_MB :: real where "MIN_RAM_MB = 128"
definition MAX_RAM_MB :: real where "MAX_RAM_MB = 10240"
definition MIN_TIMEOUT_SECONDS :: real where "MIN_TIMEOUT_SECONDS = 1"
definition MAX_TIMEOUT_SECONDS :: real where "MAX_TIMEOUT_SECONDS = 900"

text \<open>The fields of \<^verbatim>\<open>handlerBaseSchema\<close> and of \<^verbatim>\<open>queueSchema\<close>.\<close>

definition ram_schema :: "real schema" where
  "ram_schema =
     z_number [Min MIN_RAM_MB ''RAM must be at least 128 MB'',
               Max MAX_RAM_MB ''RAM cannot exceed 10240 MB'']"

definition timeout_schema :: "real schema" where
  "timeout_schema =
     z_number [Min MIN_TIMEOUT_SECONDS ''Timeout must be at least 1s'',
               Max MAX_TIMEOUT_SECONDS ''Timeout cannot exceed 900s'']"

definition cpu_schema :: "real option schema" where
  "cpu_schema = z_optional (z_number [])"

definition machineType_schema :: "string schema" where
  "machineType_schema = z_enum [''cpu'', ''memory'', ''gpu'']"

definition type_schema :: "string schema" where
  "type_schema = z_enum [''standard'', ''fifo'']"

definition visibilityTimeout_schema :: "real schema" where
  "visibilityTimeout_schema = z_number []"

definition messageGroupId_schema :: "string option option schema" where
  "messageGroupId_schema = z_optional (z_nullable z_string)"

definition maxRetries_schema :: "real schema" where
  "maxRetries_schema = z_number [Min 0 ''maxRetries cannot be negative'']"

definition retryStrategy_schema :: "string schema" where
  "retryStrategy_schema = z_enum [''none'', ''exponential'', ''jitter'']"

text \<open>\<^verbatim>\<open>handlerBaseSchema.partial()\<close>: every field optional.\<close>

definition handlerBaseSchema_partial :: "HandlerConfig schema" where
  "handlerBaseSchema_partial p v =
     (case v of
        JObj _ \<Rightarrow>
          (let (i1, r1) = z_optional ram_schema (p @ [''ram'']) (get_prop v ''ram'');
               (i2, r2) = z_optional timeout_schema (p @ [''timeout'']) (get_prop v ''timeout'');
               (i3, r3) = z_optional_again cpu_schema (p @ [''cpu'']) (get_prop v ''cpu'');
               (i4, r4) = z_optional machineType_schema (p @ [''machineType''])
                            (get_prop v ''machineType'')
           in (i1 @ i2 @ i3 @ i4,
               merge_field (merge_field (merge_field (merge_field
                 (VALID (\<lambda>a b c d. \<lparr>ram = a, timeout = b, cpu = c, machineType = d\<rparr>))
                 r1) r2) r3) r4))
      | _ \<Rightarrow> ([invalid_type p ''object'' v], INVALID))"

text \<open>\<^verbatim>\<open>queueSchema.partial()\<close>\<close>

definition queueSchema_partial :: "QueueConfig schema" where
  "queueSchema_partial p v =
     (case v of
        JObj _ \<Rightarrow>
          (let (i1, r1) = z_optional type_schema (p @ [''type'']) (get_prop v ''type'');
               (i2, r2) = z_optional visibilityTimeout_schema (p @ [''visibilityTimeout''])
                            (get_prop v ''visibilityTimeout'');
               (i3, r3) = z_optional_again messageGroupId_schema (p @ [''messageGroupId''])
                            (get_prop v ''messageGroupId'');
               (i4, r4) = z_optional maxRetries_schema (p @ [''maxRetries''])
                            (get_prop v ''maxRetries'');
               (i5, r5) = z_optional retryStrategy_schema (p @ [''retryStrategy''])
                            (get_prop v ''retryStrategy'')
           in (i1 @ i2 @ i3 @ i4 @ i5,
               merge_field (merge_field (merge_field (merge_field (merge_field
                 (VALID (\<lambda>a b c d e. \<lparr>type = a, visibilityTimeout = b, messageGroupId = c,
                                         maxRetries = d, retryStrategy = e\<rparr>))
                 r1) r2) r3) r4) r5))
      | _ \<Rightarrow> ([invalid_type p ''object'' v], INVALID))"

text \<open>
  The object under \<^verbatim>\<open>infrastructureSchema\<close>:
  \<^verbatim>\<open>z.object({ handler: handlerBaseSchema.partial().optional(),
             queue: queueSchema.partial().optional() })\<close>
\<close>

definition infrastructureObject :: "InfrastructureConfig schema" where
  "infrastructureObject p v =
     (case v of
        JObj _ \<Rightarrow>
          (let (i1, r1) = z_optional handlerBaseSchema_partial (p @ [''handler''])
                            (get_prop v ''handler'');
               (i2, r2) = z_optional queueSchema_partial (p @ [''queue'']) (get_prop v ''queue'')
           in (i1 @ i2,
               merge_field (merge_field (VALID (\<lambda>a b. \<lparr>handler = a, queue = b\<rparr>)) r1) r2))
      | _ \<Rightarrow> ([invalid_type p ''object'' v], INVALID))"

text \<open>\<^verbatim>\<open>!messageGroupId\<close>: \<^verbatim>\<open>undefined\<close>, \<^verbatim>\<open>null\<close> and the empty string.\<close>

fun falsy :: "string option option \<Rightarrow> bool" where
  "falsy (Some (Some s)) = (s = [])"
| "falsy _ = True"

text \<open>
  The callback of \<^verbatim>\<open>infrastructureSchema\<close>'s \<^verbatim>\<open>superRefine\<close>, as its three
  \<^verbatim>\<open>if\<close> statements. \<^verbatim>\<open>config.handler?.cpu\<close> is \<open>Option.bind (handler config) cpu\<close>.
  The first computes in doubles: the expected value, the difference and the tolerance,
  which is the double nearest to 0.1. A comparison with a NaN expectation is false.
\<close>

definition proportionality_check :: "InfrastructureConfig \<Rightarrow> zod_issue list" where
  "proportionality_check config =
     (case (Option.bind (handler config) cpu, Option.bind (handler config) ram) of
        (Some cpu', Some ram') \<Rightarrow>
          (case getProportionalCpu_double ram' of
             Some expectedCpu \<Rightarrow>
               (let tolerance = fl 0.1 in
                if \<bar>fl (cpu' - expectedCpu)\<bar> > tolerance then
                  [\<lparr>issue_path = [''handler'', ''cpu''],
                    issue_message =
                      [Txt ''CPU ('', Num cpu', Txt '' vCPU) is not proportional to RAM ('',
                       Num ram', Txt '' MB). Expected approximately '', Fixed2 expectedCpu,
                       Txt '' vCPU'']\<rparr>]
                else [])
           | None \<Rightarrow> [])
      | _ \<Rightarrow> [])"

definition visibility_check :: "InfrastructureConfig \<Rightarrow> zod_issue list" where
  "visibility_check config =
     (case (Option.bind (queue config) visibilityTimeout, Option.bind (handler config) timeout) of
        (Some visibilityTimeout', Some timeout') \<Rightarrow>
          (if visibilityTimeout' \<le> timeout' then
             [\<lparr>issue_path = [''queue'', ''visibilityTimeout''],
               issue_message =
                 [Txt ''Visibility timeout ('', Num visibilityTimeout',
                  Txt ''s) must be greater than handler timeout ('', Num timeout',
                  Txt ''s) to prevent premature message redelivery'']\<rparr>]
           else [])
      | _ \<Rightarrow> [])"

definition fifo_check :: "InfrastructureConfig \<Rightarrow> zod_issue list" where
  "fifo_check config =
     (if Option.bind (queue config) type = Some ''fifo'' \<and>
         falsy (Option.bind (queue config) messageGroupId)
      then [\<lparr>issue_path = [''queue'', ''messageGroupId''],
             issue_message =
               [Txt (''messageGroupId is required when queue type is '' @ dq @ ''fifo'' @ dq)]\<rparr>]
      else [])"

definition infrastructure_refinement :: "InfrastructureConfig \<Rightarrow> zod_issue list" where
  "infrastructure_refinement config =
     proportionality_check config @ visibility_check config @ fifo_check config"

definition infrastructureSchema :: "InfrastructureConfig schema" where
  "infrastructureSchema = superRefine infrastructureObject infrastructure_refinement"

text \<open>
  The input schema of a step, as far as \<^verbatim>\<open>createInfrastructureSchema\<close> looks at it: reading
  \<^verbatim>\<open>inputSchema.shape\<close> gives a value or throws, the value is falsy or not, and
  \<^verbatim>\<open>key in shape\<close> on a value that is not falsy gives a boolean or throws (on a value
  that is not an object it throws a TypeError). An absent (falsy) \<^verbatim>\<open>inputSchema\<close> is
  \<open>None\<close>.
\<close>

datatype shape = ShapeFalsy | ShapeTruthy "string \<Rightarrow> js_error + bool"

datatype input_schema = InputSchema "js_error + shape"

fun shape_of :: "input_schema \<Rightarrow> js_error + shape" where
  "shape_of (InputSchema s) = s"

text \<open>
  The shape of a schema made by \<^verbatim>\<open>z.object({...})\<close> is the plain object it was given:
  \<^verbatim>\<open>in\<close> holds for its own keys and for the names every plain object inherits.
\<close>

definition Object_prototype_names :: "string list" where
  "Object_prototype_names =
     [''constructor'', ''__defineGetter__'', ''__defineSetter__'', ''hasOwnProperty'',
      ''__lookupGetter__'', ''__lookupSetter__'', ''isPrototypeOf'', ''propertyIsEnumerable'',
      ''toString'', ''valueOf'', ''__proto__'', ''toLocaleString'']"

definition z_object_schema :: "string list \<Rightarrow> input_schema" where
  "z_object_schema names =
     InputSchema (Inr (ShapeTruthy (\<lambda>k. Inr (k \<in> set names \<or> k \<in> set Object_prototype_names))))"

definition group_issue :: "string \<Rightarrow> zod_issue" where
  "group_issue msg = \<lparr>issue_path = [''queue'', ''messageGroupId''], issue_message = [Txt msg]\<rparr>"

definition schema_unavailable :: "string \<Rightarrow> zod_issue" where
  "schema_unavailable g =
     group_issue (''Cannot validate messageGroupId '' @ dq @ g @ dq @
                  '' - step has no input schema defined'')"

definition key_path_violation :: "string \<Rightarrow> zod_issue" where
  "key_path_violation g =
     group_issue (''messageGroupId '' @ dq @ g @ dq @
       '' must be a simple field path. Nested paths and template expressions are not supported'')"

definition key_not_found :: "string \<Rightarrow> zod_issue" where
  "key_not_found g =
     group_issue (''messageGroupId '' @ dq @ g @ dq @ '' does not exist in step'' @ sq @
                  ''s input schema'')"

text \<open>The issue of the callback's \<^verbatim>\<open>catch\<close> block, for the description it has read.\<close>

definition introspection_failure :: "string \<Rightarrow> string \<Rightarrow> zod_issue" where
  "introspection_failure g description =
     group_issue (''Failed to validate messageGroupId '' @ dq @ g @ dq @
                  '' against input schema: '' @ description)"

text \<open>The \<^verbatim>\<open>try\<close> block of the callback: what it adds, or what it throws.\<close>

definition query_shape :: "input_schema \<Rightarrow> string \<Rightarrow> js_error + zod_issue list" where
  "query_shape inputSchema g =
     (case shape_of inputSchema of
        Inl error \<Rightarrow> Inl error
      | Inr ShapeFalsy \<Rightarrow> Inr [key_not_found g]
      | Inr (ShapeTruthy has) \<Rightarrow>
          (case has g of
             Inl error \<Rightarrow> Inl error
           | Inr found \<Rightarrow> Inr (if \<not> found then [key_not_found g] else [])))"

text \<open>
  The callback \<^verbatim>\<open>createInfrastructureSchema\<close> adds: the issues it adds, or what it throws.
  Its \<^verbatim>\<open>catch\<close> block reads the message of what the \<^verbatim>\<open>try\<close> block threw; when that
  read throws, the callback throws.
\<close>

definition messageGroupId_refinement ::
  "input_schema option \<Rightarrow> InfrastructureConfig \<Rightarrow> js_error + zod_issue list" where
  "messageGroupId_refinement inputSchema config =
     (let messageGroupId' = Option.bind (queue config) messageGroupId in
      if falsy messageGroupId' then Inr []
      else
        (case messageGroupId' of
           Some (Some g) \<Rightarrow>
             (case inputSchema of
                None \<Rightarrow> Inr [schema_unavailable g]
              | Some sch \<Rightarrow>
                  if CHR ''.'' \<in> set g \<or> CHR ''['' \<in> set g then Inr [key_path_violation g]
                  else
                    (case query_shape sch g of
                       Inr issues \<Rightarrow> Inr issues
                     | Inl error \<Rightarrow>
                         (case error_description error of
                            Inr description \<Rightarrow> Inr [introspection_failure g description]
                          | Inl thrown_by_getter \<Rightarrow> Inl thrown_by_getter)))
         | _ \<Rightarrow> Inr []))"

definition createInfrastructureSchema :: "input_schema option \<Rightarrow> InfrastructureConfig effects" where
  "createInfrastructureSchema inputSchema =
     superRefine_throwing infrastructureSchema (messageGroupId_refinement inputSchema)"

section \<open>The entry points\<close>

record InfrastructureValidationError =
  path :: string
  message :: message

record InfrastructureValidationResult =
  success :: bool
  errors :: "InfrastructureValidationError list option"

text \<open>
  The \<^verbatim>\<open>catch\<close> block, the same in both entry points: the result it returns, or what it
  throws when it cannot read the message of what it caught.
\<close>

definition format_issue :: "zod_issue \<Rightarrow> InfrastructureValidationError" where
  "format_issue err =
     \<lparr>path = (if length (issue_path err) > 0 then join ''.'' (issue_path err)
              else ''infrastructure''),
      message = issue_message err\<rparr>"

definition unexpected :: "string \<Rightarrow> InfrastructureValidationResult" where
  "unexpected description =
     \<lparr>success = False,
      errors = Some [\<lparr>path = ''infrastructure'',
                      message = [Txt (''Unexpected validation error: '' @ description)]\<rparr>]\<rparr>"

definition on_error :: "thrown \<Rightarrow> js_error + InfrastructureValidationResult" where
  "on_error error =
     (case error of
        ZodError issues \<Rightarrow> Inr \<lparr>success = False, errors = Some (map format_issue issues)\<rparr>
      | Thrown e \<Rightarrow>
          (case error_description e of
             Inr description \<Rightarrow> Inr (unexpected description)
           | Inl thrown_by_getter \<Rightarrow> Inl thrown_by_getter))"

text \<open>
  The entry point that takes a step name (and does not use it): the result it returns
  (\<open>Inr\<close>), or what it throws (\<open>Inl\<close>).
\<close>

definition validateInfrastructureConfig ::
  "jsval \<Rightarrow> string \<Rightarrow> input_schema option \<Rightarrow> js_error + InfrastructureValidationResult" where
  "validateInfrastructureConfig infrastructureConfig stepName inputSchema =
     (case parse (createInfrastructureSchema inputSchema) infrastructureConfig of
        Inr _ \<Rightarrow> Inr \<lparr>success = True, errors = None\<rparr>
      | Inl error \<Rightarrow> on_error error)"

text \<open>
  The entry point of the infrastructure-validator module. It imports
  \<^verbatim>\<open>createInfrastructureSchema\<close> from its own \<^verbatim>\<open>./schemas\<close> module, so the function is a
  parameter here: a call of it returns a schema or throws.
\<close>

definition validateInfrastructureConfig2 ::
  "(input_schema option \<Rightarrow> js_error + InfrastructureConfig effects) \<Rightarrow>
   jsval \<Rightarrow> input_schema option \<Rightarrow> js_error + InfrastructureValidationResult" where
  "validateInfrastructureConfig2 createSchema infrastructureConfig inputSchema =
     (case createSchema inputSchema of
        Inl error \<Rightarrow> on_error (Thrown error)
      | Inr schema \<Rightarrow>
          (case parse schema infrastructureConfig of
             Inr _ \<Rightarrow> Inr \<lparr>success = True, errors = None\<rparr>
           | Inl error \<Rightarrow> on_error error))"

section \<open>Notions used to state the properties\<close>

text \<open>The number, the string, or the nullable string a JavaScript value is, if it is one.\<close>

fun num_of :: "jsval \<Rightarrow> real option" where
  "num_of (JNum x) = Some x"
| "num_of _ = None"

fun str_of :: "jsval \<Rightarrow> string option" where
  "str_of (JStr s) = Some s"
| "str_of _ = None"

fun nullable_str_of :: "jsval \<Rightarrow> string option option" where
  "nullable_str_of (JStr s) = Some (Some s)"
| "nullable_str_of JNull = Some None"
| "nullable_str_of _ = None"

text \<open>The issues the checks of a number schema add for a number that is present.\<close>

definition num_issues :: "num_check list \<Rightarrow> string list \<Rightarrow> real option \<Rightarrow> zod_issue list" where
  "num_issues checks p a =
     (case a of Some x \<Rightarrow> concat (map (check_issue p x) checks) | None \<Rightarrow> [])"

text \<open>
  A descriptor is structurally valid when parsing it against the object schema is not
  aborted: it is an object, its handler and queue are objects where present, and every
  field that is present has the type, or is one of the literals, its schema asks for.
  Numbers out of range do not abort the parse.
\<close>

definition structurally_valid :: "jsval \<Rightarrow> bool" where
  "structurally_valid v = (parsed (snd (infrastructureObject [] v)) \<noteq> None)"

text \<open>
  The result for a list of issues, and the violations the outcome of a call carries (none
  when the call throws).
\<close>

definition report :: "zod_issue list \<Rightarrow> InfrastructureValidationResult" where
  "report issues =
     (if issues = [] then \<lparr>success = True, errors = None\<rparr>
      else \<lparr>success = False, errors = Some (map format_issue issues)\<rparr>)"

definition reported ::
  "js_error + InfrastructureValidationResult \<Rightarrow> InfrastructureValidationError list" where
  "reported outcome =
     (case outcome of
        Inr result \<Rightarrow> (case errors result of Some es \<Rightarrow> es | None \<Rightarrow> [])
      | Inl _ \<Rightarrow> [])"

text \<open>
  The callback that checks the message group returns on this descriptor (or does not run,
  the parse being aborted). It throws only when the descriptor is structurally valid, its
  message group is a key the callback looks up, and the introspection of the input schema
  throws an error whose message cannot be read (lemma \<open>callback_throws_iff\<close> below).
\<close>

definition callback_returns :: "input_schema option \<Rightarrow> jsval \<Rightarrow> bool" where
  "callback_returns inputSchema v =
     (case parsed (snd (infrastructureObject [] v)) of
        None \<Rightarrow> True
      | Some config \<Rightarrow>
          (case messageGroupId_refinement inputSchema config of
             Inr _ \<Rightarrow> True
           | Inl _ \<Rightarrow> False))"

text \<open>The issues of the range checks, read off a parsed descriptor.\<close>

definition range_issues :: "InfrastructureConfig \<Rightarrow> zod_issue list" where
  "range_issues config =
     num_issues [Min MIN_RAM_MB ''RAM must be at least 128 MB'',
                 Max MAX_RAM_MB ''RAM cannot exceed 10240 MB'']
       [''handler'', ''ram''] (Option.bind (handler config) ram) @
     num_issues [Min MIN_TIMEOUT_SECONDS ''Timeout must be at least 1s'',
                 Max MAX_TIMEOUT_SECONDS ''Timeout cannot exceed 900s'']
       [''handler'', ''timeout''] (Option.bind (handler config) timeout) @
     num_issues [Min 0 ''maxRetries cannot be negative'']
       [''queue'', ''maxRetries''] (Option.bind (queue config) maxRetries)"

text \<open>The two violations with numbers in their messages, recognised by their form.\<close>

definition is_proportionality_violation :: "InfrastructureValidationError \<Rightarrow> bool" where
  "is_proportionality_violation e =
     (case message e of
        [Txt a, Num _, Txt b, Num _, Txt c, Fixed2 _, Txt d] \<Rightarrow>
          path e = ''handler.cpu'' \<and> a = ''CPU ('' \<and>
          b = '' vCPU) is not proportional to RAM ('' \<and>
          c = '' MB). Expected approximately '' \<and> d = '' vCPU''
      | _ \<Rightarrow> False)"

definition is_visibility_violation :: "InfrastructureValidationError \<Rightarrow> bool" where
  "is_visibility_violation e =
     (case message e of
        [Txt a, Num _, Txt b, Num _, Txt c] \<Rightarrow>
          path e = ''queue.visibilityTimeout'' \<and> a = ''Visibility timeout ('' \<and>
          b = ''s) must be greater than handler timeout ('' \<and>
          c = ''s) to prevent premature message redelivery''
      | _ \<Rightarrow> False)"


text \<open>
  Two invariants of every parse with the object schemas: the status is valid exactly when no
  issue was added, and every issue carries a message that is one piece of text.
\<close>

definition coherent :: "zod_issue list \<times> 'a parse_return \<Rightarrow> bool" where
  "coherent res = (case snd res of VALID _ \<Rightarrow> fst res = [] | _ \<Rightarrow> fst res \<noteq> [])"

definition plain_issue :: "zod_issue \<Rightarrow> bool" where
  "plain_issue i = (case issue_message i of [Txt _] \<Rightarrow> True | _ \<Rightarrow> False)"

definition sound :: "zod_issue list \<times> 'a parse_return \<Rightarrow> bool" where
  "sound res = (coherent res \<and> list_all plain_issue (fst res))"

section \<open>Descriptors used as examples\<close>

definition timeouts_descriptor :: "real \<Rightarrow> jsval" where
  "timeouts_descriptor w =
     JObj [(''handler'', JObj [(''ram'', JNum 2048), (''timeout'', JNum 30),
                               (''machineType'', JStr ''cpu'')]),
           (''queue'', JObj [(''type'', JStr ''standard''), (''visibilityTimeout'', JNum w),
                             (''maxRetries'', JNum 3), (''retryStrategy'', JStr ''none'')])]"

definition cpu_descriptor :: "real \<Rightarrow> jsval" where
  "cpu_descriptor x =
     JObj [(''handler'', JObj [(''ram'', JNum 2048), (''cpu'', JNum x), (''timeout'', JNum 30),
                               (''machineType'', JStr ''cpu'')])]"

definition small_cpu_descriptor :: "real \<Rightarrow> jsval" where
  "small_cpu_descriptor x = JObj [(''handler'', JObj [(''ram'', JNum 128), (''cpu'', JNum x)])]"

definition small_ram_descriptor :: jsval where
  "small_ram_descriptor =
     JObj [(''handler'', JObj [(''ram'', JNum 64), (''timeout'', JNum 30),
                               (''machineType'', JStr ''cpu'')]),
           (''queue'', JObj [(''type'', JStr ''standard''), (''visibilityTimeout'', JNum 30)])]"

definition group_descriptor :: "string \<Rightarrow> jsval" where
  "group_descriptor g =
     JObj [(''queue'', JObj [(''type'', JStr ''fifo''), (''visibilityTimeout'', JNum 60),
                             (''messageGroupId'', JStr g), (''maxRetries'', JNum 3),
                             (''retryStrategy'', JStr ''none'')])]"

definition retries_descriptor :: "real \<Rightarrow> jsval" where
  "retries_descriptor m = JObj [(''queue'', JObj [(''maxRetries'', JNum m)])]"

definition group_config :: "string option option \<Rightarrow> InfrastructureConfig" where
  "group_config g =
     \<lparr>handler = None,
      queue = Some \<lparr>type = None, visibilityTimeout = None, messageGroupId = g,
                     maxRetries = None, retryStrategy = None\<rparr>\<rparr>"

section \<open>Properties of the resolver\<close>

lemma ramValues_eq:
  "ramValues =
     [128, 256, 512, 1024, 1536, 2048, 3008, 4096, 5120, 6144, 7168, 8192, 9216, 10240]"
  by (simp add: ramValues_def AWS_LAMBDA_CPU_RATIO_def)




































section \<open>Properties of the double-precision arithmetic\<close>

lemma fl_binade:
  assumes "2 powr of_int e \<le> \<bar>x\<bar>" "\<bar>x\<bar> < 2 powr (of_int e + 1)" "- 1022 \<le> e"
  shows "fl x = of_int (round_to_even (x / 2 powr (of_int e - 52))) * 2 powr (of_int e - 52)"
proof -
  have pos: "0 < \<bar>x\<bar>"
    using assms(1) powr_gt_zero [of 2 "of_int e"] by linarith
  have "\<lfloor>log 2 \<bar>x\<bar>\<rfloor> = e"
    using assms pos by (subst floor_log_eq_powr_iff) auto
  with assms pos show ?thesis by (simp add: fl_def Let_def)
qed

text \<open>The doubles that the examples need.\<close>

lemma fl_tenth: "fl 0.1 = 3602879701896397 / 36028797018963968"
  using fl_binade [of "- 4" "0.1"]
  by (simp add: powr_minus round_to_even_def)

lemma fl_0: "fl 0 = 0"
  by (simp add: fl_def)

lemma fl_2: "fl 2 = 2"
  using fl_binade [of 1 2]
  by (simp add: powr_minus round_to_even_def)

lemma fl_1_1: "fl 1.1 = 2476979795053773 / 2251799813685248"
  using fl_binade [of 0 "1.1"]
  by (simp add: powr_minus round_to_even_def)

lemma fl_1_1_minus_1:
  "fl (2476979795053773 / 2251799813685248 - 1) = 225179981368525 / 2251799813685248"
  using fl_binade [of "- 4" "2476979795053773 / 2251799813685248 - 1"]
  by (simp add: powr_minus round_to_even_def)

lemma fl_0_1625: "fl 0.1625 = 5854679515581645 / 36028797018963968"
  using fl_binade [of "- 3" "0.1625"]
  by (simp add: powr_minus round_to_even_def)

lemma fl_0_1625_minus_0_0625:
  "fl (5854679515581645 / 36028797018963968 - 0.0625) = 3602879701896397 / 36028797018963968"
  using fl_binade [of "- 4" "5854679515581645 / 36028797018963968 - 0.0625"]
  by (simp add: powr_minus round_to_even_def)

text \<open>
  Rounding decides at the edge of the tolerance: the double nearest to 0.1625 differs from
  0.0625 by more than a tenth, and the machine finds the difference equal to its tolerance.
\<close>

lemma rounding_decides:
  "\<bar>fl 0.1625 - 0.0625\<bar> > (0.1 :: real)"
  "\<not> \<bar>fl (fl 0.1625 - 0.0625)\<bar> > fl 0.1"
proof -
  show "\<bar>fl 0.1625 - 0.0625\<bar> > (0.1 :: real)"
    unfolding fl_0_1625 by simp
  show "\<not> \<bar>fl (fl 0.1625 - 0.0625)\<bar> > fl 0.1"
    unfolding fl_0_1625 fl_0_1625_minus_0_0625 fl_tenth by simp
qed

lemma gpc_double_exact:
  "(k, v) \<in> set AWS_LAMBDA_CPU_RATIO \<Longrightarrow> getProportionalCpu_double k = Some v"
  by (auto simp: getProportionalCpu_double_def AWS_LAMBDA_CPU_RATIO_def)

lemma interpolate_double_number:
  "set xs \<subseteq> fst ` set AWS_LAMBDA_CPU_RATIO \<Longrightarrow> interpolate_double xs r \<noteq> Some None"
proof (induction xs r rule: interpolate_double.induct)
  case (1 lower upper rest r)
  then have "map_of AWS_LAMBDA_CPU_RATIO lower \<noteq> None" "map_of AWS_LAMBDA_CPU_RATIO upper \<noteq> None"
    by (simp_all add: map_of_eq_None_iff)
  then obtain a b where
    "map_of AWS_LAMBDA_CPU_RATIO lower = Some a" "map_of AWS_LAMBDA_CPU_RATIO upper = Some b"
    by auto
  with 1 show ?case by (simp add: Let_def)
qed simp_all

lemma gpc_double_total: "getProportionalCpu_double r \<noteq> None"
proof (cases "map_of AWS_LAMBDA_CPU_RATIO r")
  case (Some exact)
  then show ?thesis by (simp add: getProportionalCpu_double_def)
next
  case None
  have keys: "set ramValues \<subseteq> fst ` set AWS_LAMBDA_CPU_RATIO"
    by (simp add: ramValues_def)
  show ?thesis
  proof (cases "interpolate_double ramValues r")
    case (Some found)
    with interpolate_double_number [OF keys, of r] None show ?thesis
      by (simp add: getProportionalCpu_double_def)
  next
    case no_bracket: None
    have table: "map_of AWS_LAMBDA_CPU_RATIO 128 = Some 0.0625"
      "map_of AWS_LAMBDA_CPU_RATIO 10240 = Some 5"
      by (simp_all add: AWS_LAMBDA_CPU_RATIO_def)
    have clamp: "(case ramValues of
             [] \<Rightarrow> None
           | first # _ \<Rightarrow>
               if r \<le> first then map_of AWS_LAMBDA_CPU_RATIO first
               else map_of AWS_LAMBDA_CPU_RATIO (last ramValues)) =
          (if r \<le> 128 then Some 0.0625 else Some 5)"
      by (simp add: ramValues_eq table)
    have "getProportionalCpu_double r = (if r \<le> 128 then Some 0.0625 else Some 5)"
      using None no_bracket unfolding clamp [symmetric]
      by (simp add: getProportionalCpu_double_def)
    then show ?thesis by (cases "r \<le> 128") simp_all
  qed
qed

section \<open>Properties of the schema library\<close>

lemma sound_simps:
  "sound (i, VALID x) \<longleftrightarrow> i = []"
  "sound (i, DIRTY x) \<longleftrightarrow> i \<noteq> [] \<and> list_all plain_issue i"
  "sound (i, INVALID) \<longleftrightarrow> i \<noteq> [] \<and> list_all plain_issue i"
  by (auto simp: sound_def coherent_def)

lemma sound_coherent: "sound res \<Longrightarrow> coherent res"
  by (simp add: sound_def)

lemma plain_invalid_type: "plain_issue (invalid_type p e v)"
  by (simp add: invalid_type_def plain_issue_def)

lemma plain_check_issue: "list_all plain_issue (check_issue p x c)"
  by (cases c) (simp_all add: plain_issue_def)

lemma plain_checks: "list_all plain_issue (concat (map (check_issue p x) cs))"
  by (induction cs) (simp_all add: plain_check_issue)

lemma sound_z_number: "sound (z_number cs p v)"
  by (cases v) (simp_all add: z_number_def sound_simps Let_def plain_invalid_type plain_checks)

lemma sound_z_string: "sound (z_string p v)"
  by (cases v) (simp_all add: z_string_def sound_simps plain_invalid_type)

lemma sound_z_enum: "sound (z_enum vals p v)"
  by (cases v) (simp_all add: z_enum_def sound_simps plain_invalid_type, simp add: plain_issue_def)

lemma sound_map_return: "sound (i, map_return f r) = sound (i, r)"
  by (cases r) (simp_all add: sound_simps)

lemma sound_z_optional: "sound (inner p v) \<Longrightarrow> sound (z_optional inner p v)"
  by (cases v; cases "inner p v")
     (simp_all add: z_optional_def sound_map_return sound_simps)

lemma sound_z_nullable: "sound (inner p v) \<Longrightarrow> sound (z_nullable inner p v)"
  by (cases v; cases "inner p v")
     (simp_all add: z_nullable_def sound_map_return sound_simps)

lemma sound_z_optional_again: "sound (inner p v) \<Longrightarrow> sound (z_optional_again inner p v)"
  by (cases v) (simp_all add: z_optional_again_def sound_simps)

lemma sound_merge:
  "sound (i, rf) \<Longrightarrow> sound (j, rx) \<Longrightarrow> sound (i @ j, merge_field rf rx)"
  by (cases rf; cases rx) (simp_all add: sound_simps)

lemma sound_pair: "sound res \<Longrightarrow> sound (fst res, snd res)"
  by simp

lemma sound_merge2:
  assumes "sound f1" "sound f2"
  shows "sound (fst f1 @ fst f2, merge_field (merge_field (VALID k) (snd f1)) (snd f2))"
proof -
  have "sound ([] @ fst f1, merge_field (VALID k) (snd f1))"
    by (intro sound_merge sound_pair assms) (simp add: sound_simps)
  from sound_merge [OF this sound_pair [OF assms(2)]] show ?thesis by simp
qed

lemma sound_merge4:
  assumes "sound f1" "sound f2" "sound f3" "sound f4"
  shows "sound (fst f1 @ fst f2 @ fst f3 @ fst f4,
           merge_field (merge_field (merge_field (merge_field (VALID k) (snd f1)) (snd f2))
             (snd f3)) (snd f4))"
proof -
  have "sound ([] @ fst f1, merge_field (VALID k) (snd f1))"
    by (intro sound_merge sound_pair assms) (simp add: sound_simps)
  from sound_merge [OF sound_merge [OF sound_merge
        [OF this sound_pair [OF assms(2)]] sound_pair [OF assms(3)]] sound_pair [OF assms(4)]]
  show ?thesis by simp
qed

lemma sound_merge5:
  assumes "sound f1" "sound f2" "sound f3" "sound f4" "sound f5"
  shows "sound (fst f1 @ fst f2 @ fst f3 @ fst f4 @ fst f5,
           merge_field (merge_field (merge_field (merge_field (merge_field (VALID k) (snd f1))
             (snd f2)) (snd f3)) (snd f4)) (snd f5))"
proof -
  have "sound ([] @ fst f1, merge_field (VALID k) (snd f1))"
    by (intro sound_merge sound_pair assms) (simp add: sound_simps)
  from sound_merge [OF sound_merge [OF sound_merge [OF sound_merge
        [OF this sound_pair [OF assms(2)]] sound_pair [OF assms(3)]] sound_pair [OF assms(4)]]
        sound_pair [OF assms(5)]]
  show ?thesis by simp
qed

lemma coherent_superRefine:
  "coherent (inner p v) \<Longrightarrow> coherent (superRefine inner f p v)"
  by (cases "inner p v"; cases "snd (inner p v)")
     (auto simp: superRefine_def coherent_def Let_def)

text \<open>A callback that returns is refined as by the total \<open>superRefine\<close>.\<close>

lemma superRefine_returns:
  "superRefine_throwing inner (\<lambda>x. Inr (refinement x)) p v =
   Inr (superRefine inner refinement p v)"
  by (cases "inner p v"; cases "snd (inner p v)")
     (auto simp: superRefine_throwing_def superRefine_def Let_def)

section \<open>Properties of the infrastructure schemas\<close>

lemma sound_handler: "sound (handlerBaseSchema_partial p v)"
proof (cases v)
  case (JObj kv)
  show ?thesis
    unfolding JObj handlerBaseSchema_partial_def jsval.case case_prod_beta Let_def
      ram_schema_def timeout_schema_def cpu_schema_def machineType_schema_def
    by (intro sound_merge4 sound_z_optional sound_z_optional_again sound_z_number sound_z_enum)
qed (simp_all add: handlerBaseSchema_partial_def sound_simps plain_invalid_type)

lemma sound_queue: "sound (queueSchema_partial p v)"
proof (cases v)
  case (JObj kv)
  show ?thesis
    unfolding JObj queueSchema_partial_def jsval.case case_prod_beta Let_def
      type_schema_def visibilityTimeout_schema_def messageGroupId_schema_def
      maxRetries_schema_def retryStrategy_schema_def
    by (intro sound_merge5 sound_z_optional sound_z_optional_again sound_z_nullable
        sound_z_number sound_z_enum sound_z_string)
qed (simp_all add: queueSchema_partial_def sound_simps plain_invalid_type)

lemma sound_object: "sound (infrastructureObject p v)"
proof (cases v)
  case (JObj kv)
  show ?thesis
    unfolding JObj infrastructureObject_def jsval.case case_prod_beta Let_def
    by (intro sound_merge2 sound_z_optional sound_handler sound_queue)
qed (simp_all add: infrastructureObject_def sound_simps plain_invalid_type)

lemma parsed_mergeE:
  assumes "parsed (merge_field rf rx) = Some y"
  obtains f x where "parsed rf = Some f" "parsed rx = Some x" "y = f x"
  using assms by (cases rf; cases rx) auto

lemma num_issues_Nil [simp]: "num_issues [] p a = []"
  by (cases a) (simp_all add: num_issues_def)

lemma opt_number_parsed:
  assumes "parsed (snd (z_optional (z_number cs) p x)) = Some a"
  shows "a = num_of x \<and> fst (z_optional (z_number cs) p x) = num_issues cs p a"
  using assms
  by (cases x) (auto simp: z_optional_def z_number_def num_issues_def Let_def split: if_splits)

lemma cpu_parsed:
  assumes "parsed (snd (z_optional_again cpu_schema p x)) = Some a"
  shows "a = num_of x \<and> fst (z_optional_again cpu_schema p x) = []"
  using assms
  by (cases x) (auto simp: z_optional_again_def cpu_schema_def z_optional_def z_number_def)

lemma opt_enum_parsed:
  assumes "parsed (snd (z_optional (z_enum vals) p x)) = Some a"
  shows "a = str_of x \<and> fst (z_optional (z_enum vals) p x) = []"
  using assms
  by (cases x) (auto simp: z_optional_def z_enum_def split: if_splits)

lemma group_parsed:
  assumes "parsed (snd (z_optional_again messageGroupId_schema p x)) = Some a"
  shows "a = nullable_str_of x \<and> fst (z_optional_again messageGroupId_schema p x) = []"
  using assms
  by (cases x)
     (auto simp: z_optional_again_def messageGroupId_schema_def z_optional_def z_nullable_def
        z_string_def)

lemma opt_parsed:
  assumes "parsed (snd (z_optional S p x)) = Some a"
  shows "(x = JUndefined \<and> a = None \<and> fst (z_optional S p x) = []) \<or>
         (x \<noteq> JUndefined \<and> (\<exists>h. a = Some h \<and> parsed (snd (S p x)) = Some h) \<and>
          fst (z_optional S p x) = fst (S p x))"
  using assms
  by (cases x; cases "S p x"; cases "snd (S p x)") (auto simp: z_optional_def)

lemma handler_parsed:
  assumes "parsed (snd (handlerBaseSchema_partial p v)) = Some h"
  shows "ram h = num_of (get_prop v ''ram'') \<and>
         timeout h = num_of (get_prop v ''timeout'') \<and>
         cpu h = num_of (get_prop v ''cpu'') \<and>
         machineType h = str_of (get_prop v ''machineType'') \<and>
         fst (handlerBaseSchema_partial p v) =
           num_issues [Min MIN_RAM_MB ''RAM must be at least 128 MB'',
                       Max MAX_RAM_MB ''RAM cannot exceed 10240 MB''] (p @ [''ram'']) (ram h) @
           num_issues [Min MIN_TIMEOUT_SECONDS ''Timeout must be at least 1s'',
                       Max MAX_TIMEOUT_SECONDS ''Timeout cannot exceed 900s'']
             (p @ [''timeout'']) (timeout h)"
proof (cases v)
  case (JObj kv)
  let ?F1 = "z_optional ram_schema (p @ [''ram'']) (get_prop v ''ram'')"
  let ?F2 = "z_optional timeout_schema (p @ [''timeout'']) (get_prop v ''timeout'')"
  let ?F3 = "z_optional_again cpu_schema (p @ [''cpu'']) (get_prop v ''cpu'')"
  let ?F4 = "z_optional machineType_schema (p @ [''machineType'']) (get_prop v ''machineType'')"
  have eq: "handlerBaseSchema_partial p v =
      (fst ?F1 @ fst ?F2 @ fst ?F3 @ fst ?F4,
       merge_field (merge_field (merge_field (merge_field
         (VALID (\<lambda>a b c d. \<lparr>ram = a, timeout = b, cpu = c, machineType = d\<rparr>))
         (snd ?F1)) (snd ?F2)) (snd ?F3)) (snd ?F4))"
    by (simp add: JObj handlerBaseSchema_partial_def case_prod_beta)
  from assms obtain a b c d where
    p1: "parsed (snd ?F1) = Some a" and p2: "parsed (snd ?F2) = Some b" and
    p3: "parsed (snd ?F3) = Some c" and p4: "parsed (snd ?F4) = Some d" and
    h: "h = \<lparr>ram = a, timeout = b, cpu = c, machineType = d\<rparr>"
    unfolding eq snd_conv by (elim parsed_mergeE) auto
  note q1 = opt_number_parsed [OF p1 [unfolded ram_schema_def], folded ram_schema_def]
  note q2 = opt_number_parsed [OF p2 [unfolded timeout_schema_def], folded timeout_schema_def]
  note q3 = cpu_parsed [OF p3]
  note q4 = opt_enum_parsed [OF p4 [unfolded machineType_schema_def], folded machineType_schema_def]
  show ?thesis
    unfolding eq fst_conv using q1 q2 q3 q4 by (simp add: h)
qed (use assms in \<open>simp_all add: handlerBaseSchema_partial_def\<close>)

lemma queue_parsed:
  assumes "parsed (snd (queueSchema_partial p v)) = Some q"
  shows "type q = str_of (get_prop v ''type'') \<and>
         visibilityTimeout q = num_of (get_prop v ''visibilityTimeout'') \<and>
         messageGroupId q = nullable_str_of (get_prop v ''messageGroupId'') \<and>
         maxRetries q = num_of (get_prop v ''maxRetries'') \<and>
         retryStrategy q = str_of (get_prop v ''retryStrategy'') \<and>
         fst (queueSchema_partial p v) =
           num_issues [Min 0 ''maxRetries cannot be negative''] (p @ [''maxRetries''])
             (maxRetries q)"
proof (cases v)
  case (JObj kv)
  let ?F1 = "z_optional type_schema (p @ [''type'']) (get_prop v ''type'')"
  let ?F2 = "z_optional visibilityTimeout_schema (p @ [''visibilityTimeout''])
               (get_prop v ''visibilityTimeout'')"
  let ?F3 = "z_optional_again messageGroupId_schema (p @ [''messageGroupId''])
               (get_prop v ''messageGroupId'')"
  let ?F4 = "z_optional maxRetries_schema (p @ [''maxRetries'']) (get_prop v ''maxRetries'')"
  let ?F5 = "z_optional retryStrategy_schema (p @ [''retryStrategy''])
               (get_prop v ''retryStrategy'')"
  have eq: "queueSchema_partial p v =
      (fst ?F1 @ fst ?F2 @ fst ?F3 @ fst ?F4 @ fst ?F5,
       merge_field (merge_field (merge_field (merge_field (merge_field
         (VALID (\<lambda>a b c d e. \<lparr>type = a, visibilityTimeout = b, messageGroupId = c,
                                 maxRetries = d, retryStrategy = e\<rparr>))
         (snd ?F1)) (snd ?F2)) (snd ?F3)) (snd ?F4)) (snd ?F5))"
    by (simp add: JObj queueSchema_partial_def case_prod_beta)
  from assms obtain a b c d e where
    p1: "parsed (snd ?F1) = Some a" and p2: "parsed (snd ?F2) = Some b" and
    p3: "parsed (snd ?F3) = Some c" and p4: "parsed (snd ?F4) = Some d" and
    p5: "parsed (snd ?F5) = Some e" and
    q: "q = \<lparr>type = a, visibilityTimeout = b, messageGroupId = c, maxRetries = d,
              retryStrategy = e\<rparr>"
    unfolding eq snd_conv by (elim parsed_mergeE) auto
  note q1 = opt_enum_parsed [OF p1 [unfolded type_schema_def], folded type_schema_def]
  note q2 = opt_number_parsed [OF p2 [unfolded visibilityTimeout_schema_def],
      folded visibilityTimeout_schema_def]
  note q3 = group_parsed [OF p3]
  note q4 = opt_number_parsed [OF p4 [unfolded maxRetries_schema_def], folded maxRetries_schema_def]
  note q5 = opt_enum_parsed [OF p5 [unfolded retryStrategy_schema_def],
      folded retryStrategy_schema_def]
  show ?thesis
    unfolding eq fst_conv using q1 q2 q3 q4 q5 by (simp add: q)
qed (use assms in \<open>simp_all add: queueSchema_partial_def\<close>)

lemma object_parsed:
  assumes "parsed (snd (infrastructureObject [] v)) = Some c"
  shows "Option.bind (handler c) ram = num_of (get_prop (get_prop v ''handler'') ''ram'') \<and>
         Option.bind (handler c) timeout = num_of (get_prop (get_prop v ''handler'') ''timeout'') \<and>
         Option.bind (handler c) cpu = num_of (get_prop (get_prop v ''handler'') ''cpu'') \<and>
         Option.bind (handler c) machineType =
           str_of (get_prop (get_prop v ''handler'') ''machineType'') \<and>
         Option.bind (queue c) type = str_of (get_prop (get_prop v ''queue'') ''type'') \<and>
         Option.bind (queue c) visibilityTimeout =
           num_of (get_prop (get_prop v ''queue'') ''visibilityTimeout'') \<and>
         Option.bind (queue c) messageGroupId =
           nullable_str_of (get_prop (get_prop v ''queue'') ''messageGroupId'') \<and>
         Option.bind (queue c) maxRetries =
           num_of (get_prop (get_prop v ''queue'') ''maxRetries'') \<and>
         Option.bind (queue c) retryStrategy =
           str_of (get_prop (get_prop v ''queue'') ''retryStrategy'') \<and>
         fst (infrastructureObject [] v) = range_issues c"
proof (cases v)
  case (JObj kv)
  let ?F1 = "z_optional handlerBaseSchema_partial [''handler''] (get_prop v ''handler'')"
  let ?F2 = "z_optional queueSchema_partial [''queue''] (get_prop v ''queue'')"
  have eq: "infrastructureObject [] v =
      (fst ?F1 @ fst ?F2,
       merge_field (merge_field (VALID (\<lambda>a b. \<lparr>handler = a, queue = b\<rparr>)) (snd ?F1)) (snd ?F2))"
    by (simp add: JObj infrastructureObject_def case_prod_beta)
  from assms obtain a b where
    p1: "parsed (snd ?F1) = Some a" and p2: "parsed (snd ?F2) = Some b" and
    c: "c = \<lparr>handler = a, queue = b\<rparr>"
    unfolding eq snd_conv by (elim parsed_mergeE) auto
  have hfields:
    "Option.bind a ram = num_of (get_prop (get_prop v ''handler'') ''ram'') \<and>
     Option.bind a timeout = num_of (get_prop (get_prop v ''handler'') ''timeout'') \<and>
     Option.bind a cpu = num_of (get_prop (get_prop v ''handler'') ''cpu'') \<and>
     Option.bind a machineType = str_of (get_prop (get_prop v ''handler'') ''machineType'') \<and>
     fst ?F1 =
       num_issues [Min MIN_RAM_MB ''RAM must be at least 128 MB'',
                   Max MAX_RAM_MB ''RAM cannot exceed 10240 MB''] [''handler'', ''ram'']
         (Option.bind a ram) @
       num_issues [Min MIN_TIMEOUT_SECONDS ''Timeout must be at least 1s'',
                   Max MAX_TIMEOUT_SECONDS ''Timeout cannot exceed 900s'']
         [''handler'', ''timeout''] (Option.bind a timeout)"
    using opt_parsed [OF p1]
  proof (elim disjE conjE exE)
    assume "get_prop v ''handler'' = JUndefined" "a = None" "fst ?F1 = []"
    then show ?thesis by (simp add: num_issues_def)
  next
    fix h
    assume a: "a = Some h"
      and ph: "parsed (snd (handlerBaseSchema_partial [''handler''] (get_prop v ''handler''))) = Some h"
      and f: "fst ?F1 = fst (handlerBaseSchema_partial [''handler''] (get_prop v ''handler''))"
    from handler_parsed [OF ph] show ?thesis by (simp add: a f)
  qed
  have qfields:
    "Option.bind b type = str_of (get_prop (get_prop v ''queue'') ''type'') \<and>
     Option.bind b visibilityTimeout =
       num_of (get_prop (get_prop v ''queue'') ''visibilityTimeout'') \<and>
     Option.bind b messageGroupId =
       nullable_str_of (get_prop (get_prop v ''queue'') ''messageGroupId'') \<and>
     Option.bind b maxRetries = num_of (get_prop (get_prop v ''queue'') ''maxRetries'') \<and>
     Option.bind b retryStrategy = str_of (get_prop (get_prop v ''queue'') ''retryStrategy'') \<and>
     fst ?F2 =
       num_issues [Min 0 ''maxRetries cannot be negative''] [''queue'', ''maxRetries'']
         (Option.bind b maxRetries)"
    using opt_parsed [OF p2]
  proof (elim disjE conjE exE)
    assume "get_prop v ''queue'' = JUndefined" "b = None" "fst ?F2 = []"
    then show ?thesis by (simp add: num_issues_def)
  next
    fix q
    assume b: "b = Some q"
      and pq: "parsed (snd (queueSchema_partial [''queue''] (get_prop v ''queue''))) = Some q"
      and f: "fst ?F2 = fst (queueSchema_partial [''queue''] (get_prop v ''queue''))"
    from queue_parsed [OF pq] show ?thesis by (simp add: b f)
  qed
  show ?thesis
    unfolding eq fst_conv range_issues_def using hfields qfields by (simp add: c)
qed (use assms in \<open>simp_all add: infrastructureObject_def\<close>)

lemma drop_empty_prefix: "map (\<lambda>i. i\<lparr>issue_path := [] @ issue_path i\<rparr>) xs = xs"
  by (induction xs) simp_all

lemma coherent_infrastructureSchema: "coherent (infrastructureSchema p v)"
  unfolding infrastructureSchema_def
  by (intro coherent_superRefine sound_coherent sound_object)

lemma schema_issues_valid:
  assumes "parsed (snd (infrastructureObject [] v)) = Some c"
  shows "fst (infrastructureSchema [] v) =
           fst (infrastructureObject [] v) @ infrastructure_refinement c"
    and "parsed (snd (infrastructureSchema [] v)) = Some c"
  using assms
  by (cases "infrastructureObject [] v"; cases "snd (infrastructureObject [] v)";
      auto simp: infrastructureSchema_def superRefine_def drop_empty_prefix Let_def)+

lemma schema_issues_aborted:
  assumes "parsed (snd (infrastructureObject [] v)) = None"
  shows "infrastructureSchema [] v = (fst (infrastructureObject [] v), INVALID)"
  using assms
  by (cases "infrastructureObject [] v"; cases "snd (infrastructureObject [] v)")
     (auto simp: infrastructureSchema_def superRefine_def)

text \<open>The three ways a call of the entry point can go.\<close>

lemma create_aborted:
  assumes "parsed (snd (infrastructureObject [] v)) = None"
  shows "createInfrastructureSchema sch [] v = Inr (fst (infrastructureObject [] v), INVALID)"
  by (simp add: createInfrastructureSchema_def superRefine_throwing_def
      schema_issues_aborted [OF assms])

lemma create_throws:
  assumes "parsed (snd (infrastructureObject [] v)) = Some c"
    and "messageGroupId_refinement sch c = Inl e"
  shows "createInfrastructureSchema sch [] v = Inl e"
  using schema_issues_valid [OF assms(1)] assms(2)
  by (cases "infrastructureSchema [] v"; cases "snd (infrastructureSchema [] v)")
     (auto simp: createInfrastructureSchema_def superRefine_throwing_def)

lemma create_returns:
  assumes "parsed (snd (infrastructureObject [] v)) = Some c"
    and "messageGroupId_refinement sch c = Inr added"
  shows "\<exists>r. createInfrastructureSchema sch [] v =
              Inr (fst (infrastructureObject [] v) @ infrastructure_refinement c @ added, r) \<and>
            coherent (fst (infrastructureObject [] v) @ infrastructure_refinement c @ added, r)"
  using schema_issues_valid [OF assms(1)] assms(2) coherent_infrastructureSchema [of "[]" v]
  by (cases "infrastructureSchema [] v"; cases "snd (infrastructureSchema [] v)")
     (auto simp: createInfrastructureSchema_def superRefine_throwing_def drop_empty_prefix
        Let_def coherent_def)

lemma run_coherent:
  assumes "schema [] v = Inr (issues, r)" and "coherent (issues, r)"
  shows "(case parse schema v of
            Inr _ \<Rightarrow> Inr \<lparr>success = True, errors = None\<rparr>
          | Inl error \<Rightarrow> on_error error) = Inr (report issues)"
  using assms by (cases r) (auto simp: parse_def report_def on_error_def coherent_def)

lemma validate_aborted:
  assumes "parsed (snd (infrastructureObject [] v)) = None"
  shows "validateInfrastructureConfig v n sch = Inr (report (fst (infrastructureObject [] v)))"
proof -
  have "coherent (fst (infrastructureObject [] v), INVALID :: InfrastructureConfig parse_return)"
    using assms sound_object [of "[]" v]
    by (cases "snd (infrastructureObject [] v)") (auto simp: sound_def coherent_def)
  from run_coherent [where schema = "createInfrastructureSchema sch" and v = v,
      OF create_aborted [OF assms] this]
  show ?thesis
    by (simp add: validateInfrastructureConfig_def)
qed

lemma validate_valid:
  assumes "parsed (snd (infrastructureObject [] v)) = Some c"
    and "messageGroupId_refinement sch c = Inr added"
  shows "validateInfrastructureConfig v n sch =
           Inr (report (range_issues c @ infrastructure_refinement c @ added))"
proof -
  from create_returns [OF assms] obtain r where
    "createInfrastructureSchema sch [] v =
       Inr (fst (infrastructureObject [] v) @ infrastructure_refinement c @ added, r)"
    "coherent (fst (infrastructureObject [] v) @ infrastructure_refinement c @ added, r)"
    by blast
  from run_coherent [where schema = "createInfrastructureSchema sch" and v = v, OF this]
    object_parsed [OF assms(1)]
  show ?thesis
    by (simp add: validateInfrastructureConfig_def)
qed

lemma validate_throws:
  assumes "parsed (snd (infrastructureObject [] v)) = Some c"
    and "messageGroupId_refinement sch c = Inl e"
  shows "validateInfrastructureConfig v n sch = on_error (Thrown e)"
  by (simp add: validateInfrastructureConfig_def parse_def create_throws [OF assms])

lemma callback_returns_aborted:
  "parsed (snd (infrastructureObject [] v)) = None \<Longrightarrow> callback_returns sch v"
  by (simp add: callback_returns_def)

lemma callback_returns_valid:
  "parsed (snd (infrastructureObject [] v)) = Some c \<Longrightarrow>
   callback_returns sch v \<longleftrightarrow> (\<exists>added. messageGroupId_refinement sch c = Inr added)"
  by (cases "messageGroupId_refinement sch c") (simp_all add: callback_returns_def)

lemma reported_report: "reported (Inr (report issues)) = map format_issue issues"
  by (simp add: reported_def report_def)

lemma reported_thrown:
  "reported (on_error (Thrown e)) =
     (case error_description e of
        Inr d \<Rightarrow> [\<lparr>path = ''infrastructure'',
                   message = [Txt (''Unexpected validation error: '' @ d)]\<rparr>]
      | Inl _ \<Rightarrow> [])"
  by (cases "error_description e") (simp_all add: reported_def on_error_def unexpected_def)

section \<open>The kinds of violation\<close>

lemma plain_num_issues: "list_all plain_issue (num_issues cs p a)"
  by (cases a) (simp_all add: num_issues_def plain_checks)

lemma plain_range_issues: "list_all plain_issue (range_issues c)"
  by (simp add: range_issues_def plain_num_issues)

lemma plain_fifo_check: "list_all plain_issue (fifo_check c)"
  by (simp add: fifo_check_def plain_issue_def)

lemma plain_group_issue: "plain_issue (group_issue msg)"
  by (simp add: group_issue_def plain_issue_def)

lemma plain_query_shape: "query_shape S g = Inr issues \<Longrightarrow> list_all plain_issue issues"
  by (auto simp: query_shape_def key_not_found_def plain_group_issue
      split: sum.splits shape.splits if_splits)

lemma plain_messageGroupId_refinement:
  "messageGroupId_refinement sch c = Inr added \<Longrightarrow> list_all plain_issue added"
  by (auto simp: messageGroupId_refinement_def Let_def schema_unavailable_def
      key_path_violation_def introspection_failure_def plain_group_issue
      dest: plain_query_shape split: option.splits sum.splits if_splits)

lemma plain_not_visibility: "plain_issue i \<Longrightarrow> \<not> is_visibility_violation (format_issue i)"
  by (auto simp: plain_issue_def format_issue_def is_visibility_violation_def
      split: list.splits frag.splits)

lemma plain_not_proportionality:
  "plain_issue i \<Longrightarrow> \<not> is_proportionality_violation (format_issue i)"
  by (auto simp: plain_issue_def format_issue_def is_proportionality_violation_def
      split: list.splits frag.splits)

lemma plain_none_visibility:
  "list_all plain_issue is \<Longrightarrow> \<not> list_ex is_visibility_violation (map format_issue is)"
  by (induction "is") (simp_all add: plain_not_visibility)

lemma plain_none_proportionality:
  "list_all plain_issue is \<Longrightarrow> \<not> list_ex is_proportionality_violation (map format_issue is)"
  by (induction "is") (simp_all add: plain_not_proportionality)

lemma visibility_check_cases:
  "visibility_check c =
     (case (Option.bind (queue c) visibilityTimeout, Option.bind (handler c) timeout) of
        (Some w, Some t) \<Rightarrow>
          if w \<le> t then
            [\<lparr>issue_path = [''queue'', ''visibilityTimeout''],
              issue_message =
                [Txt ''Visibility timeout ('', Num w,
                 Txt ''s) must be greater than handler timeout ('', Num t,
                 Txt ''s) to prevent premature message redelivery'']\<rparr>]
          else []
      | _ \<Rightarrow> [])"
  by (simp add: visibility_check_def)

lemma proportionality_check_cases:
  "proportionality_check c =
     (case (Option.bind (handler c) cpu, Option.bind (handler c) ram) of
        (Some x, Some r) \<Rightarrow>
          (case getProportionalCpu_double r of
             Some e \<Rightarrow>
               if \<bar>fl (x - e)\<bar> > fl 0.1 then
                 [\<lparr>issue_path = [''handler'', ''cpu''],
                   issue_message =
                     [Txt ''CPU ('', Num x, Txt '' vCPU) is not proportional to RAM ('',
                      Num r, Txt '' MB). Expected approximately '', Fixed2 e,
                      Txt '' vCPU'']\<rparr>]
               else []
           | None \<Rightarrow> [])
      | _ \<Rightarrow> [])"
  by (simp add: proportionality_check_def Let_def split: option.splits)

lemma visibility_check_kind:
  "list_ex is_visibility_violation (map format_issue (visibility_check c)) \<longleftrightarrow>
   visibility_check c \<noteq> []"
  "\<not> list_ex is_proportionality_violation (map format_issue (visibility_check c))"
  by (auto simp: visibility_check_def format_issue_def is_visibility_violation_def
      is_proportionality_violation_def split: option.splits)

lemma proportionality_check_kind:
  "list_ex is_proportionality_violation (map format_issue (proportionality_check c)) \<longleftrightarrow>
   proportionality_check c \<noteq> []"
  "\<not> list_ex is_visibility_violation (map format_issue (proportionality_check c))"
  by (auto simp: proportionality_check_def format_issue_def Let_def is_visibility_violation_def
      is_proportionality_violation_def split: option.splits)

lemma list_ex_append_map:
  "list_ex P (map f (xs @ ys)) \<longleftrightarrow> list_ex P (map f xs) \<or> list_ex P (map f ys)"
  by simp

lemma thrown_none_visibility:
  "\<not> list_ex is_visibility_violation (reported (on_error (Thrown e)))"
  by (cases "error_description e")
     (simp_all add: reported_thrown is_visibility_violation_def)

lemma thrown_none_proportionality:
  "\<not> list_ex is_proportionality_violation (reported (on_error (Thrown e)))"
  by (cases "error_description e")
     (simp_all add: reported_thrown is_proportionality_violation_def)

lemma visibility_reported_valid:
  assumes "parsed (snd (infrastructureObject [] v)) = Some c"
    and "messageGroupId_refinement sch c = Inr added"
  shows "list_ex is_visibility_violation (reported (validateInfrastructureConfig v n sch)) \<longleftrightarrow>
         visibility_check c \<noteq> []"
  unfolding validate_valid [OF assms] reported_report infrastructure_refinement_def
    list_ex_append_map
  using plain_none_visibility [OF plain_range_issues [of c]]
    plain_none_visibility [OF plain_fifo_check [of c]]
    plain_none_visibility [OF plain_messageGroupId_refinement [OF assms(2)]]
    visibility_check_kind(1) [of c] proportionality_check_kind(2) [of c]
  by blast

lemma visibility_reported_throws:
  assumes "parsed (snd (infrastructureObject [] v)) = Some c"
    and "messageGroupId_refinement sch c = Inl e"
  shows "\<not> list_ex is_visibility_violation (reported (validateInfrastructureConfig v n sch))"
  unfolding validate_throws [OF assms] by (rule thrown_none_visibility)

lemma visibility_reported_aborted:
  assumes "parsed (snd (infrastructureObject [] v)) = None"
  shows "\<not> list_ex is_visibility_violation (reported (validateInfrastructureConfig v n sch))"
  unfolding validate_aborted [OF assms] reported_report
  using sound_object [of "[]" v] by (intro plain_none_visibility) (simp add: sound_def)

lemma proportionality_reported_valid:
  assumes "parsed (snd (infrastructureObject [] v)) = Some c"
    and "messageGroupId_refinement sch c = Inr added"
  shows "list_ex is_proportionality_violation (reported (validateInfrastructureConfig v n sch)) \<longleftrightarrow>
         proportionality_check c \<noteq> []"
  unfolding validate_valid [OF assms] reported_report infrastructure_refinement_def
    list_ex_append_map
  using plain_none_proportionality [OF plain_range_issues [of c]]
    plain_none_proportionality [OF plain_fifo_check [of c]]
    plain_none_proportionality [OF plain_messageGroupId_refinement [OF assms(2)]]
    proportionality_check_kind(1) [of c] visibility_check_kind(2) [of c]
  by blast

lemma proportionality_reported_throws:
  assumes "parsed (snd (infrastructureObject [] v)) = Some c"
    and "messageGroupId_refinement sch c = Inl e"
  shows "\<not> list_ex is_proportionality_violation
           (reported (validateInfrastructureConfig v n sch))"
  unfolding validate_throws [OF assms] by (rule thrown_none_proportionality)

lemma proportionality_reported_aborted:
  assumes "parsed (snd (infrastructureObject [] v)) = None"
  shows "\<not> list_ex is_proportionality_violation (reported (validateInfrastructureConfig v n sch))"
  unfolding validate_aborted [OF assms] reported_report
  using sound_object [of "[]" v] by (intro plain_none_proportionality) (simp add: sound_def)

lemma reported_valid_set:
  assumes "parsed (snd (infrastructureObject [] v)) = Some c"
    and "messageGroupId_refinement sch c = Inr added"
  shows "set (reported (validateInfrastructureConfig v n sch)) =
         format_issue ` (set (range_issues c) \<union> set (proportionality_check c) \<union>
           set (visibility_check c) \<union> set (fifo_check c) \<union> set added)"
  unfolding validate_valid [OF assms] reported_report infrastructure_refinement_def
  by (simp add: image_Un Un_assoc)

text \<open>When the callback returns, and what is reported when it throws.\<close>

lemma callback_returns_None: "callback_returns None v"
  by (auto simp: callback_returns_def messageGroupId_refinement_def Let_def
      split: option.splits)

lemma query_z_object:
  "query_shape (z_object_schema names) g =
     Inr (if g \<in> set names \<or> g \<in> set Object_prototype_names then [] else [key_not_found g])"
  by (simp add: query_shape_def z_object_schema_def)

lemma callback_returns_z_object: "callback_returns (Some (z_object_schema names)) v"
proof (cases "parsed (snd (infrastructureObject [] v))")
  case None
  then show ?thesis by (rule callback_returns_aborted)
next
  case (Some c)
  have "\<exists>added. messageGroupId_refinement (Some (z_object_schema names)) c = Inr added"
    by (simp add: messageGroupId_refinement_def Let_def query_z_object split: option.splits)
  with Some show ?thesis by (simp add: callback_returns_valid)
qed

text \<open>The callback throws exactly on these inputs.\<close>

lemma callback_throws_iff:
  "\<not> callback_returns sch v \<longleftrightarrow>
     (\<exists>S g err e. sch = Some S \<and> structurally_valid v \<and>
        get_prop (get_prop v ''queue'') ''messageGroupId'' = JStr g \<and> g \<noteq> [] \<and>
        CHR ''.'' \<notin> set g \<and> CHR ''['' \<notin> set g \<and>
        query_shape S g = Inl err \<and> error_description err = Inl e)"
proof
  assume "\<not> callback_returns sch v"
  then obtain c e where c: "parsed (snd (infrastructureObject [] v)) = Some c"
    and e: "messageGroupId_refinement sch c = Inl e"
    by (auto simp: callback_returns_def split: option.splits sum.splits)
  from e obtain S g err where g: "sch = Some S"
    "Option.bind (queue c) messageGroupId = Some (Some g)" "g \<noteq> []"
    "CHR ''.'' \<notin> set g" "CHR ''['' \<notin> set g"
    "query_shape S g = Inl err" "error_description err = Inl e"
    by (auto simp: messageGroupId_refinement_def Let_def
        split: option.splits sum.splits if_splits)
  from object_parsed [OF c] g(2)
  have "get_prop (get_prop v ''queue'') ''messageGroupId'' = JStr g"
    by (cases "get_prop (get_prop v ''queue'') ''messageGroupId''") simp_all
  moreover from c have "structurally_valid v"
    by (simp add: structurally_valid_def)
  ultimately show "\<exists>S g err e. sch = Some S \<and> structurally_valid v \<and>
        get_prop (get_prop v ''queue'') ''messageGroupId'' = JStr g \<and> g \<noteq> [] \<and>
        CHR ''.'' \<notin> set g \<and> CHR ''['' \<notin> set g \<and>
        query_shape S g = Inl err \<and> error_description err = Inl e"
    using g by blast
next
  assume "\<exists>S g err e. sch = Some S \<and> structurally_valid v \<and>
        get_prop (get_prop v ''queue'') ''messageGroupId'' = JStr g \<and> g \<noteq> [] \<and>
        CHR ''.'' \<notin> set g \<and> CHR ''['' \<notin> set g \<and>
        query_shape S g = Inl err \<and> error_description err = Inl e"
  then obtain S g err e where a: "sch = Some S" "structurally_valid v"
    "get_prop (get_prop v ''queue'') ''messageGroupId'' = JStr g" "g \<noteq> []"
    "CHR ''.'' \<notin> set g" "CHR ''['' \<notin> set g"
    "query_shape S g = Inl err" "error_description err = Inl e"
    by blast
  from a(2) obtain c where c: "parsed (snd (infrastructureObject [] v)) = Some c"
    by (auto simp: structurally_valid_def)
  from object_parsed [OF c] a(3)
  have "Option.bind (queue c) messageGroupId = Some (Some g)"
    by simp
  with a have "messageGroupId_refinement sch c = Inl e"
    by (simp add: messageGroupId_refinement_def)
  with c show "\<not> callback_returns sch v"
    by (simp add: callback_returns_def)
qed

lemma reported_thrown_path:
  "x \<in> set (reported (on_error (Thrown e))) \<Longrightarrow> path x = ''infrastructure''"
  by (cases "error_description e") (simp_all add: reported_thrown)

lemma visibility_violation_kind:
  assumes "\<lparr>path = ''queue.visibilityTimeout'',
    message = [Txt ''Visibility timeout ('', Num w,
               Txt ''s) must be greater than handler timeout ('', Num t,
               Txt ''s) to prevent premature message redelivery'']\<rparr> \<in> set es"
  shows "list_ex is_visibility_violation es"
proof -
  have "is_visibility_violation \<lparr>path = ''queue.visibilityTimeout'',
    message = [Txt ''Visibility timeout ('', Num w,
               Txt ''s) must be greater than handler timeout ('', Num t,
               Txt ''s) to prevent premature message redelivery'']\<rparr>"
    by (simp add: is_visibility_violation_def)
  with assms show ?thesis unfolding list_ex_iff by blast
qed

lemma proportionality_violation_kind:
  assumes "\<lparr>path = ''handler.cpu'',
    message = [Txt ''CPU ('', Num x, Txt '' vCPU) is not proportional to RAM ('',
               Num r, Txt '' MB). Expected approximately '', Fixed2 e,
               Txt '' vCPU'']\<rparr> \<in> set es"
  shows "list_ex is_proportionality_violation es"
proof -
  have "is_proportionality_violation \<lparr>path = ''handler.cpu'',
    message = [Txt ''CPU ('', Num x, Txt '' vCPU) is not proportional to RAM ('',
               Num r, Txt '' MB). Expected approximately '', Fixed2 e,
               Txt '' vCPU'']\<rparr>"
    by (simp add: is_proportionality_violation_def)
  with assms show ?thesis unfolding list_ex_iff by blast
qed

section \<open>Evaluating the validator on a given descriptor\<close>

lemmas schema_defs =
  infrastructureObject_def handlerBaseSchema_partial_def queueSchema_partial_def
  ram_schema_def timeout_schema_def cpu_schema_def machineType_schema_def type_schema_def
  visibilityTimeout_schema_def messageGroupId_schema_def maxRetries_schema_def
  retryStrategy_schema_def z_optional_def z_optional_again_def z_nullable_def z_number_def
  z_string_def z_enum_def invalid_type_def MIN_RAM_MB_def MAX_RAM_MB_def
  MIN_TIMEOUT_SECONDS_def MAX_TIMEOUT_SECONDS_def Let_def

lemmas refinement_defs =
  createInfrastructureSchema_def infrastructureSchema_def superRefine_def
  superRefine_throwing_def
  infrastructure_refinement_def proportionality_check_def visibility_check_def fifo_check_def
  messageGroupId_refinement_def query_shape_def z_object_schema_def Object_prototype_names_def
  schema_unavailable_def key_path_violation_def key_not_found_def introspection_failure_def
  group_issue_def

lemmas entry_defs =
  validateInfrastructureConfig_def parse_def on_error_def unexpected_def format_issue_def
  reported_def





section \<open>The cross-field rule and the proportionality rule\<close>

text \<open>
  Claim C3, as the code has it. The refinement that compares the two timeouts runs only when
  parsing against the object schema is not aborted, so the rule is stated for structurally
  valid descriptors; and what it adds reaches the result only when the callback that checks
  the message group, which runs after it, returns. When \<^verbatim>\<open>queue.visibilityTimeout\<close> and
  \<^verbatim>\<open>handler.timeout\<close> are both numbers, a visibility violation is reported if and only if
  the first is not greater than the second and that callback returns, and the violation
  reported is the one whose message names both numbers. When either field is absent, no
  visibility violation is reported, for any descriptor.
\<close>

theorem visibility_rule:
  "(structurally_valid v \<and>
    get_prop (get_prop v ''queue'') ''visibilityTimeout'' = JNum w \<and>
    get_prop (get_prop v ''handler'') ''timeout'' = JNum t \<longrightarrow>
      (list_ex is_visibility_violation (reported (validateInfrastructureConfig v n sch))
         \<longleftrightarrow> w \<le> t \<and> callback_returns sch v) \<and>
      (\<lparr>path = ''queue.visibilityTimeout'',
        message = [Txt ''Visibility timeout ('', Num w,
                   Txt ''s) must be greater than handler timeout ('', Num t,
                   Txt ''s) to prevent premature message redelivery'']\<rparr>
         \<in> set (reported (validateInfrastructureConfig v n sch))
         \<longleftrightarrow> w \<le> t \<and> callback_returns sch v)) \<and>
   (get_prop (get_prop v ''queue'') ''visibilityTimeout'' = JUndefined \<or>
    get_prop (get_prop v ''handler'') ''timeout'' = JUndefined \<longrightarrow>
      \<not> list_ex is_visibility_violation (reported (validateInfrastructureConfig v n sch)))"
proof (intro conjI impI)
  assume a: "structurally_valid v \<and>
    get_prop (get_prop v ''queue'') ''visibilityTimeout'' = JNum w \<and>
    get_prop (get_prop v ''handler'') ''timeout'' = JNum t"
  then obtain c where c: "parsed (snd (infrastructureObject [] v)) = Some c"
    by (auto simp: structurally_valid_def)
  from object_parsed [OF c] a
  have f: "Option.bind (queue c) visibilityTimeout = Some w" "Option.bind (handler c) timeout = Some t"
    by simp_all
  let ?R = "reported (validateInfrastructureConfig v n sch)"
  let ?violation = "\<lparr>path = ''queue.visibilityTimeout'',
        message = [Txt ''Visibility timeout ('', Num w,
                   Txt ''s) must be greater than handler timeout ('', Num t,
                   Txt ''s) to prevent premature message redelivery'']\<rparr>"
  have kind: "list_ex is_visibility_violation ?R \<longleftrightarrow> w \<le> t \<and> callback_returns sch v"
  proof (cases "messageGroupId_refinement sch c")
    case (Inr added)
    then have "callback_returns sch v" by (simp add: callback_returns_def c)
    then show ?thesis
      by (simp add: visibility_reported_valid [OF c Inr] visibility_check_cases f)
  next
    case (Inl e)
    then have "\<not> callback_returns sch v" by (simp add: callback_returns_def c)
    then show ?thesis by (simp add: visibility_reported_throws [OF c Inl])
  qed
  then show "list_ex is_visibility_violation ?R \<longleftrightarrow> w \<le> t \<and> callback_returns sch v" .
  show "?violation \<in> set ?R \<longleftrightarrow> w \<le> t \<and> callback_returns sch v"
  proof
    assume "?violation \<in> set ?R"
    then have "list_ex is_visibility_violation ?R" by (rule visibility_violation_kind)
    with kind show "w \<le> t \<and> callback_returns sch v" by simp
  next
    assume b: "w \<le> t \<and> callback_returns sch v"
    with c obtain added where added: "messageGroupId_refinement sch c = Inr added"
      by (auto simp: callback_returns_valid)
    from b show "?violation \<in> set ?R"
      by (simp add: reported_valid_set [OF c added] visibility_check_cases f format_issue_def
          image_Un)
  qed
next
  assume a: "get_prop (get_prop v ''queue'') ''visibilityTimeout'' = JUndefined \<or>
    get_prop (get_prop v ''handler'') ''timeout'' = JUndefined"
  show "\<not> list_ex is_visibility_violation (reported (validateInfrastructureConfig v n sch))"
  proof (cases "parsed (snd (infrastructureObject [] v))")
    case None
    then show ?thesis by (rule visibility_reported_aborted)
  next
    case (Some c)
    from object_parsed [OF Some] a
    have "Option.bind (queue c) visibilityTimeout = None \<or> Option.bind (handler c) timeout = None"
      by auto
    then have none: "visibility_check c = []"
      by (auto simp: visibility_check_cases split: option.splits)
    show ?thesis
    proof (cases "messageGroupId_refinement sch c")
      case (Inr added)
      with none show ?thesis by (simp add: visibility_reported_valid [OF Some Inr])
    next
      case (Inl e)
      then show ?thesis by (rule visibility_reported_throws [OF Some])
    qed
  qed
qed

theorem visibility_rule_witness:
  "structurally_valid (timeouts_descriptor 30) \<and>
   callback_returns None (timeouts_descriptor 30) \<and>
   \<lparr>path = ''queue.visibilityTimeout'',
    message = [Txt ''Visibility timeout ('', Num 30,
               Txt ''s) must be greater than handler timeout ('', Num 30,
               Txt ''s) to prevent premature message redelivery'']\<rparr>
     \<in> set (reported (validateInfrastructureConfig (timeouts_descriptor 30) ''step'' None)) \<and>
   structurally_valid (timeouts_descriptor 31) \<and>
   \<not> list_ex is_visibility_violation
       (reported (validateInfrastructureConfig (timeouts_descriptor 31) ''step'' None))"
proof -
  have s: "structurally_valid (timeouts_descriptor w)" for w
    by (simp add: structurally_valid_def timeouts_descriptor_def schema_defs)
  have q: "get_prop (get_prop (timeouts_descriptor w) ''queue'') ''visibilityTimeout'' = JNum w" for w
    by (simp add: timeouts_descriptor_def)
  have h: "get_prop (get_prop (timeouts_descriptor w) ''handler'') ''timeout'' = JNum 30" for w
    by (simp add: timeouts_descriptor_def)
  note r = callback_returns_None
  from visibility_rule [of "timeouts_descriptor 30" 30 30 "''step''" None] s q h r
  have "\<lparr>path = ''queue.visibilityTimeout'',
    message = [Txt ''Visibility timeout ('', Num 30,
               Txt ''s) must be greater than handler timeout ('', Num 30,
               Txt ''s) to prevent premature message redelivery'']\<rparr>
     \<in> set (reported (validateInfrastructureConfig (timeouts_descriptor 30) ''step'' None))"
    by simp
  moreover from visibility_rule [of "timeouts_descriptor 31" 31 30 "''step''" None] s q h
  have "\<not> list_ex is_visibility_violation
       (reported (validateInfrastructureConfig (timeouts_descriptor 31) ''step'' None))"
    by simp
  ultimately show ?thesis using s r by simp
qed

text \<open>
  The claim as written fails where another field has a literal outside its enumeration: the
  parse is aborted, the refinement does not run, and only the enumeration issue is returned
  although both timeouts are present and equal.
\<close>

theorem visibility_rule_counterexample:
  "validateInfrastructureConfig
     (JObj [(''handler'', JObj [(''timeout'', JNum 30)]),
            (''queue'', JObj [(''type'', JStr ''priority''), (''visibilityTimeout'', JNum 30)])])
     ''step'' None =
   Inr \<lparr>success = False,
        errors = Some [\<lparr>path = ''queue.type'',
                        message = [Txt (''Invalid enum value. Expected '' @
                                        joinValues [''standard'', ''fifo''] @ '', received '' @
                                        sq @ ''priority'' @ sq)]\<rparr>]\<rparr>"
  by (simp add: entry_defs refinement_defs schema_defs)

text \<open>
  Claim C5, as the code has it. The check computes in double-precision arithmetic: the
  expected value is the resolver's value as the machine computes it, the difference of the
  CPU value and the expected value is rounded, and the tolerance is the double nearest to
  0.1. For a structurally valid descriptor in which \<^verbatim>\<open>handler.cpu\<close> and
  \<^verbatim>\<open>handler.ram\<close> are both numbers, a proportionality violation is reported if and only
  if the absolute value of that difference exceeds that tolerance and the callback that
  checks the message group returns, and the violation reported is the one whose message
  carries the CPU value, the RAM value and the expected value. When either field is absent,
  no proportionality violation is reported, for any descriptor.
\<close>

theorem proportionality_rule:
  "(structurally_valid v \<and>
    get_prop (get_prop v ''handler'') ''cpu'' = JNum x \<and>
    get_prop (get_prop v ''handler'') ''ram'' = JNum r \<and>
    getProportionalCpu_double r = Some e \<longrightarrow>
      (list_ex is_proportionality_violation (reported (validateInfrastructureConfig v n sch))
         \<longleftrightarrow> \<bar>fl (x - e)\<bar> > fl 0.1 \<and> callback_returns sch v) \<and>
      (\<lparr>path = ''handler.cpu'',
        message = [Txt ''CPU ('', Num x, Txt '' vCPU) is not proportional to RAM ('',
                   Num r, Txt '' MB). Expected approximately '', Fixed2 e,
                   Txt '' vCPU'']\<rparr>
         \<in> set (reported (validateInfrastructureConfig v n sch))
         \<longleftrightarrow> \<bar>fl (x - e)\<bar> > fl 0.1 \<and> callback_returns sch v)) \<and>
   (get_prop (get_prop v ''handler'') ''cpu'' = JUndefined \<or>
    get_prop (get_prop v ''handler'') ''ram'' = JUndefined \<longrightarrow>
      \<not> list_ex is_proportionality_violation
          (reported (validateInfrastructureConfig v n sch)))"
proof (intro conjI impI)
  assume a: "structurally_valid v \<and>
    get_prop (get_prop v ''handler'') ''cpu'' = JNum x \<and>
    get_prop (get_prop v ''handler'') ''ram'' = JNum r \<and>
    getProportionalCpu_double r = Some e"
  then obtain c where c: "parsed (snd (infrastructureObject [] v)) = Some c"
    by (auto simp: structurally_valid_def)
  from object_parsed [OF c] a
  have f: "Option.bind (handler c) cpu = Some x" "Option.bind (handler c) ram = Some r"
    "getProportionalCpu_double r = Some e"
    by simp_all
  let ?R = "reported (validateInfrastructureConfig v n sch)"
  let ?violation = "\<lparr>path = ''handler.cpu'',
        message = [Txt ''CPU ('', Num x, Txt '' vCPU) is not proportional to RAM ('',
                   Num r, Txt '' MB). Expected approximately '', Fixed2 e,
                   Txt '' vCPU'']\<rparr>"
  have kind: "list_ex is_proportionality_violation ?R
                \<longleftrightarrow> \<bar>fl (x - e)\<bar> > fl 0.1 \<and> callback_returns sch v"
  proof (cases "messageGroupId_refinement sch c")
    case (Inr added)
    then have "callback_returns sch v" by (simp add: callback_returns_def c)
    then show ?thesis
      by (simp add: proportionality_reported_valid [OF c Inr] proportionality_check_cases f)
  next
    case (Inl e)
    then have "\<not> callback_returns sch v" by (simp add: callback_returns_def c)
    then show ?thesis by (simp add: proportionality_reported_throws [OF c Inl])
  qed
  then show "list_ex is_proportionality_violation ?R
               \<longleftrightarrow> \<bar>fl (x - e)\<bar> > fl 0.1 \<and> callback_returns sch v" .
  show "?violation \<in> set ?R \<longleftrightarrow> \<bar>fl (x - e)\<bar> > fl 0.1 \<and> callback_returns sch v"
  proof
    assume "?violation \<in> set ?R"
    then have "list_ex is_proportionality_violation ?R"
      by (rule proportionality_violation_kind)
    with kind show "\<bar>fl (x - e)\<bar> > fl 0.1 \<and> callback_returns sch v" by simp
  next
    assume b: "\<bar>fl (x - e)\<bar> > fl 0.1 \<and> callback_returns sch v"
    with c obtain added where added: "messageGroupId_refinement sch c = Inr added"
      by (auto simp: callback_returns_valid)
    from b show "?violation \<in> set ?R"
      by (simp add: reported_valid_set [OF c added] proportionality_check_cases f
          format_issue_def image_Un)
  qed
next
  assume a: "get_prop (get_prop v ''handler'') ''cpu'' = JUndefined \<or>
    get_prop (get_prop v ''handler'') ''ram'' = JUndefined"
  show "\<not> list_ex is_proportionality_violation
          (reported (validateInfrastructureConfig v n sch))"
  proof (cases "parsed (snd (infrastructureObject [] v))")
    case None
    then show ?thesis by (rule proportionality_reported_aborted)
  next
    case (Some c)
    from object_parsed [OF Some] a
    have "Option.bind (handler c) cpu = None \<or> Option.bind (handler c) ram = None"
      by auto
    then have none: "proportionality_check c = []"
      by (auto simp: proportionality_check_cases split: option.splits)
    show ?thesis
    proof (cases "messageGroupId_refinement sch c")
      case (Inr added)
      with none show ?thesis by (simp add: proportionality_reported_valid [OF Some Inr])
    next
      case (Inl e)
      then show ?thesis by (rule proportionality_reported_throws [OF Some])
    qed
  qed
qed

text \<open>
  Three descriptors: a CPU value of 3 at 2048 MB is reported; the double nearest to 1.1 at
  2048 MB is reported too, since the rounded difference from 1 is 0.10000000000000009,
  above the tolerance; and the double nearest to 0.1625 at 128 MB is accepted, since its
  difference from 0.0625 is the tolerance itself.
\<close>

theorem proportionality_rule_witness:
  "structurally_valid (cpu_descriptor 3) \<and>
   getProportionalCpu_double 2048 = Some 1 \<and>
   \<lparr>path = ''handler.cpu'',
    message = [Txt ''CPU ('', Num 3, Txt '' vCPU) is not proportional to RAM ('',
               Num 2048, Txt '' MB). Expected approximately '', Fixed2 1,
               Txt '' vCPU'']\<rparr>
     \<in> set (reported (validateInfrastructureConfig (cpu_descriptor 3) ''step'' None)) \<and>
   fl (fl 1.1 - 1) = 225179981368525 / 2251799813685248 \<and>
   fl 0.1 = 3602879701896397 / 36028797018963968 \<and>
   \<lparr>path = ''handler.cpu'',
    message = [Txt ''CPU ('', Num (fl 1.1), Txt '' vCPU) is not proportional to RAM ('',
               Num 2048, Txt '' MB). Expected approximately '', Fixed2 1,
               Txt '' vCPU'']\<rparr>
     \<in> set (reported (validateInfrastructureConfig (cpu_descriptor (fl 1.1)) ''step'' None)) \<and>
   structurally_valid (small_cpu_descriptor (fl 0.1625)) \<and>
   getProportionalCpu_double 128 = Some 0.0625 \<and>
   fl (fl 0.1625 - 0.0625) = fl 0.1 \<and>
   \<not> list_ex is_proportionality_violation
       (reported (validateInfrastructureConfig (small_cpu_descriptor (fl 0.1625)) ''step'' None)) \<and>
   \<not> list_ex is_proportionality_violation
       (reported (validateInfrastructureConfig (cpu_descriptor 1) ''step'' None))"
proof -
  have s: "structurally_valid (cpu_descriptor x)" for x
    by (simp add: structurally_valid_def cpu_descriptor_def schema_defs)
  have q: "get_prop (get_prop (cpu_descriptor x) ''handler'') ''cpu'' = JNum x" for x
    by (simp add: cpu_descriptor_def)
  have h: "get_prop (get_prop (cpu_descriptor x) ''handler'') ''ram'' = JNum 2048" for x
    by (simp add: cpu_descriptor_def)
  have s': "structurally_valid (small_cpu_descriptor x)" for x
    by (simp add: structurally_valid_def small_cpu_descriptor_def schema_defs)
  have q': "get_prop (get_prop (small_cpu_descriptor x) ''handler'') ''cpu'' = JNum x" for x
    by (simp add: small_cpu_descriptor_def)
  have h': "get_prop (get_prop (small_cpu_descriptor x) ''handler'') ''ram'' = JNum 128" for x
    by (simp add: small_cpu_descriptor_def)
  have e: "getProportionalCpu_double 2048 = Some 1"
    by (simp add: getProportionalCpu_double_def AWS_LAMBDA_CPU_RATIO_def)
  have e': "getProportionalCpu_double 128 = Some 0.0625"
    by (simp add: getProportionalCpu_double_def AWS_LAMBDA_CPU_RATIO_def)
  note r = callback_returns_None
  have d3: "fl (3 - 1) = 2"
    using fl_2 by simp
  have d11: "fl (fl 1.1 - 1) = 225179981368525 / 2251799813685248"
    unfolding fl_1_1 by (rule fl_1_1_minus_1)
  have d1: "fl (1 - 1) = 0"
    by (simp add: fl_0)
  have d01625: "fl (fl 0.1625 - 0.0625) = fl 0.1"
    unfolding fl_0_1625 fl_tenth by (rule fl_0_1625_minus_0_0625)
  have t: "fl 0.1 = 3602879701896397 / 36028797018963968"
    by (rule fl_tenth)
  have big3: "\<bar>fl (3 - 1)\<bar> > fl 0.1"
    unfolding d3 t by simp
  have big11: "\<bar>fl (fl 1.1 - 1)\<bar> > fl 0.1"
    unfolding d11 t by simp
  have small1: "\<not> \<bar>fl (1 - 1)\<bar> > fl 0.1"
    unfolding d1 t by simp
  have small01625: "\<not> \<bar>fl (fl 0.1625 - 0.0625)\<bar> > fl 0.1"
    unfolding d01625 t by simp
  from proportionality_rule [of "cpu_descriptor 3" 3 2048 1 "''step''" None] s q h e r big3
  have 1: "\<lparr>path = ''handler.cpu'',
    message = [Txt ''CPU ('', Num 3, Txt '' vCPU) is not proportional to RAM ('',
               Num 2048, Txt '' MB). Expected approximately '', Fixed2 1,
               Txt '' vCPU'']\<rparr>
     \<in> set (reported (validateInfrastructureConfig (cpu_descriptor 3) ''step'' None))"
    by blast
  from proportionality_rule [of "cpu_descriptor (fl 1.1)" "fl 1.1" 2048 1 "''step''" None]
    s q h e r big11
  have 2: "\<lparr>path = ''handler.cpu'',
    message = [Txt ''CPU ('', Num (fl 1.1), Txt '' vCPU) is not proportional to RAM ('',
               Num 2048, Txt '' MB). Expected approximately '', Fixed2 1,
               Txt '' vCPU'']\<rparr>
     \<in> set (reported (validateInfrastructureConfig (cpu_descriptor (fl 1.1)) ''step'' None))"
    by blast
  from proportionality_rule [of "small_cpu_descriptor (fl 0.1625)" "fl 0.1625" 128 "0.0625"
      "''step''" None] s' q' h' e' small01625
  have 3: "\<not> list_ex is_proportionality_violation
       (reported (validateInfrastructureConfig (small_cpu_descriptor (fl 0.1625)) ''step'' None))"
    by blast
  from proportionality_rule [of "cpu_descriptor 1" 1 2048 1 "''step''" None] s q h e small1
  have 4: "\<not> list_ex is_proportionality_violation
       (reported (validateInfrastructureConfig (cpu_descriptor 1) ''step'' None))"
    by blast
  from 1 2 3 4 s s' e e' d11 d01625 t show ?thesis by blast
qed

text \<open>
  The claim as written fails in the same way as the cross-field rule: an unknown machine
  type aborts the parse, and the CPU value 3 for 2048 MB goes unreported.
\<close>

theorem proportionality_rule_counterexample:
  "validateInfrastructureConfig
     (JObj [(''handler'', JObj [(''ram'', JNum 2048), (''cpu'', JNum 3),
                                (''machineType'', JStr ''tpu'')])])
     ''step'' None =
   Inr \<lparr>success = False,
        errors = Some [\<lparr>path = ''handler.machineType'',
                        message = [Txt (''Invalid enum value. Expected '' @
                                        joinValues [''cpu'', ''memory'', ''gpu''] @ '', received '' @
                                        sq @ ''tpu'' @ sq)]\<rparr>]\<rparr>"
  by (simp add: entry_defs refinement_defs schema_defs)

section \<open>The passes of the validator\<close>

text \<open>
  Claim C1, as the code has it. For a structurally valid descriptor the result is built
  from the issues of all passes, in this order: the range checks of the fields, the
  proportionality check, the cross-field check, the check that a fifo queue has a message
  group, and the check of the message group against the input schema; when that last
  check throws, the \<^verbatim>\<open>catch\<close> block of the entry point decides and the issues collected
  are lost. In particular a RAM value out of range and a visibility timeout that is not
  greater than the handler timeout are reported together, and each is reported exactly
  when the last check returns. For a descriptor that is not structurally valid the result
  holds the issues of the object schema only.
\<close>

theorem all_passes_reported:
  "(structurally_valid v \<longrightarrow>
      (\<exists>c. parsed (snd (infrastructureObject [] v)) = Some c \<and>
           validateInfrastructureConfig v n sch =
             (case messageGroupId_refinement sch c of
                Inr added \<Rightarrow>
                  Inr (report (range_issues c @ proportionality_check c @ visibility_check c @
                               fifo_check c @ added))
              | Inl error \<Rightarrow> on_error (Thrown error)))) \<and>
   (structurally_valid v \<and>
    get_prop (get_prop v ''handler'') ''ram'' = JNum x \<and> (x < 128 \<or> 10240 < x) \<and>
    get_prop (get_prop v ''handler'') ''timeout'' = JNum t \<and>
    get_prop (get_prop v ''queue'') ''visibilityTimeout'' = JNum w \<and> w \<le> t \<longrightarrow>
      (\<lparr>path = ''handler.ram'',
        message = [Txt (if x < 128 then ''RAM must be at least 128 MB''
                        else ''RAM cannot exceed 10240 MB'')]\<rparr>
         \<in> set (reported (validateInfrastructureConfig v n sch))
         \<longleftrightarrow> callback_returns sch v) \<and>
      (\<lparr>path = ''queue.visibilityTimeout'',
        message = [Txt ''Visibility timeout ('', Num w,
                   Txt ''s) must be greater than handler timeout ('', Num t,
                   Txt ''s) to prevent premature message redelivery'']\<rparr>
         \<in> set (reported (validateInfrastructureConfig v n sch))
         \<longleftrightarrow> callback_returns sch v)) \<and>
   (\<not> structurally_valid v \<longrightarrow>
      validateInfrastructureConfig v n sch = Inr (report (fst (infrastructureObject [] v))))"
proof (intro conjI impI)
  assume "structurally_valid v"
  then obtain c where c: "parsed (snd (infrastructureObject [] v)) = Some c"
    by (auto simp: structurally_valid_def)
  have "validateInfrastructureConfig v n sch =
             (case messageGroupId_refinement sch c of
                Inr added \<Rightarrow>
                  Inr (report (range_issues c @ proportionality_check c @ visibility_check c @
                               fifo_check c @ added))
              | Inl error \<Rightarrow> on_error (Thrown error))"
  proof (cases "messageGroupId_refinement sch c")
    case (Inr added)
    from validate_valid [OF c Inr, of n] show ?thesis
      by (simp add: Inr infrastructure_refinement_def)
  next
    case (Inl e)
    from validate_throws [OF c Inl, of n] show ?thesis
      by (simp add: Inl)
  qed
  with c show "\<exists>c. parsed (snd (infrastructureObject [] v)) = Some c \<and>
           validateInfrastructureConfig v n sch =
             (case messageGroupId_refinement sch c of
                Inr added \<Rightarrow>
                  Inr (report (range_issues c @ proportionality_check c @ visibility_check c @
                               fifo_check c @ added))
              | Inl error \<Rightarrow> on_error (Thrown error))"
    by blast
next
  assume a: "structurally_valid v \<and>
    get_prop (get_prop v ''handler'') ''ram'' = JNum x \<and> (x < 128 \<or> 10240 < x) \<and>
    get_prop (get_prop v ''handler'') ''timeout'' = JNum t \<and>
    get_prop (get_prop v ''queue'') ''visibilityTimeout'' = JNum w \<and> w \<le> t"
  then obtain c where c: "parsed (snd (infrastructureObject [] v)) = Some c"
    by (auto simp: structurally_valid_def)
  from object_parsed [OF c] a
  have f: "Option.bind (handler c) ram = Some x" "Option.bind (handler c) timeout = Some t"
    "Option.bind (queue c) visibilityTimeout = Some w"
    by simp_all
  let ?R = "reported (validateInfrastructureConfig v n sch)"
  let ?ram = "\<lparr>path = ''handler.ram'',
        message = [Txt (if x < 128 then ''RAM must be at least 128 MB''
                        else ''RAM cannot exceed 10240 MB'')]\<rparr>"
  let ?visibility = "\<lparr>path = ''queue.visibilityTimeout'',
        message = [Txt ''Visibility timeout ('', Num w,
                   Txt ''s) must be greater than handler timeout ('', Num t,
                   Txt ''s) to prevent premature message redelivery'']\<rparr>"
  have "(?ram \<in> set ?R \<longleftrightarrow> callback_returns sch v) \<and>
        (?visibility \<in> set ?R \<longleftrightarrow> callback_returns sch v)"
  proof (cases "messageGroupId_refinement sch c")
    case (Inr added)
    then have r: "callback_returns sch v" by (simp add: callback_returns_def c)
    have "\<lparr>issue_path = [''handler'', ''ram''],
           issue_message = [Txt (if x < 128 then ''RAM must be at least 128 MB''
                                 else ''RAM cannot exceed 10240 MB'')]\<rparr>
            \<in> set (range_issues c)"
      using a by (auto simp: range_issues_def num_issues_def f MIN_RAM_MB_def MAX_RAM_MB_def)
    then have "format_issue \<lparr>issue_path = [''handler'', ''ram''],
           issue_message = [Txt (if x < 128 then ''RAM must be at least 128 MB''
                                 else ''RAM cannot exceed 10240 MB'')]\<rparr> \<in> set ?R"
      unfolding reported_valid_set [OF c Inr] by blast
    then have 1: "?ram \<in> set ?R"
      by (simp add: format_issue_def)
    have 2: "?visibility \<in> set ?R"
      using a
      by (simp add: reported_valid_set [OF c Inr] visibility_check_cases f format_issue_def
          image_Un)
    from 1 2 r show ?thesis by simp
  next
    case (Inl e)
    then have r: "\<not> callback_returns sch v" by (simp add: callback_returns_def c)
    have "?ram \<notin> set ?R" "?visibility \<notin> set ?R"
      unfolding validate_throws [OF c Inl] using reported_thrown_path [of _ e] by fastforce+
    with r show ?thesis by simp
  qed
  then show "?ram \<in> set ?R \<longleftrightarrow> callback_returns sch v"
    and "?visibility \<in> set ?R \<longleftrightarrow> callback_returns sch v"
    by simp_all
next
  assume "\<not> structurally_valid v"
  then have "parsed (snd (infrastructureObject [] v)) = None"
    by (simp add: structurally_valid_def)
  then show "validateInfrastructureConfig v n sch =
      Inr (report (fst (infrastructureObject [] v)))"
    by (rule validate_aborted)
qed

theorem all_passes_reported_witness:
  "structurally_valid small_ram_descriptor \<and>
   validateInfrastructureConfig small_ram_descriptor ''step'' None =
     Inr \<lparr>success = False,
          errors = Some
            [\<lparr>path = ''handler.ram'', message = [Txt ''RAM must be at least 128 MB'']\<rparr>,
             \<lparr>path = ''queue.visibilityTimeout'',
              message = [Txt ''Visibility timeout ('', Num 30,
                         Txt ''s) must be greater than handler timeout ('', Num 30,
                         Txt ''s) to prevent premature message redelivery'']\<rparr>]\<rparr>"
proof -
  have s: "structurally_valid small_ram_descriptor"
    by (simp add: structurally_valid_def small_ram_descriptor_def schema_defs)
  have c: "parsed (snd (infrastructureObject [] small_ram_descriptor)) =
      Some \<lparr>handler = Some \<lparr>ram = Some 64, timeout = Some 30, cpu = None,
                              machineType = Some ''cpu''\<rparr>,
            queue = Some \<lparr>type = Some ''standard'', visibilityTimeout = Some 30,
                           messageGroupId = None, maxRetries = None,
                           retryStrategy = None\<rparr>\<rparr>"
    by (simp add: small_ram_descriptor_def schema_defs)
  from all_passes_reported [of small_ram_descriptor "''step''" None] s
  show ?thesis
    by (simp add: c report_def range_issues_def num_issues_def refinement_defs
        format_issue_def MIN_RAM_MB_def MAX_RAM_MB_def MIN_TIMEOUT_SECONDS_def
        MAX_TIMEOUT_SECONDS_def)
qed

text \<open>
  The claim as written fails for a field check that aborts the parse: here the machine type
  is unknown and the two timeouts are equal, and the result holds the first violation only.
\<close>

theorem all_passes_reported_counterexample:
  "validateInfrastructureConfig
     (JObj [(''handler'', JObj [(''timeout'', JNum 30), (''machineType'', JStr ''bogus'')]),
            (''queue'', JObj [(''visibilityTimeout'', JNum 30)])])
     ''step'' None =
   Inr \<lparr>success = False,
        errors = Some [\<lparr>path = ''handler.machineType'',
                        message = [Txt (''Invalid enum value. Expected '' @
                                        joinValues [''cpu'', ''memory'', ''gpu''] @ '', received '' @
                                        sq @ ''bogus'' @ sq)]\<rparr>]\<rparr>"
  by (simp add: entry_defs refinement_defs schema_defs)

section \<open>The message-grouping key\<close>

lemma length_query_shape: "query_shape S g = Inr issues \<Longrightarrow> length issues \<le> 1"
  by (auto simp: query_shape_def split: sum.splits shape.splits if_splits)

lemma length_messageGroupId_refinement:
  "messageGroupId_refinement sch c = Inr added \<Longrightarrow> length added \<le> 1"
  by (auto simp: messageGroupId_refinement_def Let_def dest: length_query_shape
      split: option.splits sum.splits if_splits)

text \<open>
  Claim C4, as the code has it. The callback adds at most one violation, the first that
  applies: none when \<open>messageGroupId\<close> is absent, \<^verbatim>\<open>null\<close> or empty; the
  schema-unavailable violation when there is no input schema; the key-path violation when
  the key contains \<open>.\<close> or \<open>[\<close>; and, for the shape of an object schema and a key that is
  not a name every object inherits, the key-not-found violation exactly when the schema has
  no field of that name.
\<close>

theorem messageGroupId_rule:
  "(case messageGroupId_refinement sch c of
      Inr added \<Rightarrow> length added \<le> 1
    | Inl error \<Rightarrow> True) \<and>
   (falsy (Option.bind (queue c) messageGroupId) \<longrightarrow>
      messageGroupId_refinement sch c = Inr []) \<and>
   (Option.bind (queue c) messageGroupId = Some (Some g) \<and> g \<noteq> [] \<longrightarrow>
      (sch = None \<longrightarrow> messageGroupId_refinement sch c = Inr [schema_unavailable g]) \<and>
      (sch = Some S \<and> (CHR ''.'' \<in> set g \<or> CHR ''['' \<in> set g) \<longrightarrow>
         messageGroupId_refinement sch c = Inr [key_path_violation g]) \<and>
      (sch = Some (z_object_schema names) \<and> CHR ''.'' \<notin> set g \<and> CHR ''['' \<notin> set g \<and>
       g \<notin> set Object_prototype_names \<longrightarrow>
         messageGroupId_refinement sch c =
           Inr (if g \<in> set names then [] else [key_not_found g])))"
proof (intro conjI impI)
  show "case messageGroupId_refinement sch c of
          Inr added \<Rightarrow> length added \<le> 1
        | Inl error \<Rightarrow> True"
    using length_messageGroupId_refinement [of sch c]
    by (cases "messageGroupId_refinement sch c") simp_all
  show "messageGroupId_refinement sch c = Inr []"
    if "falsy (Option.bind (queue c) messageGroupId)"
    using that by (simp add: messageGroupId_refinement_def)
next
  assume a: "Option.bind (queue c) messageGroupId = Some (Some g) \<and> g \<noteq> []"
  then have nf: "\<not> falsy (Option.bind (queue c) messageGroupId)"
    by simp
  show "messageGroupId_refinement sch c = Inr [schema_unavailable g]" if "sch = None"
    using that a nf by (simp add: messageGroupId_refinement_def)
  show "messageGroupId_refinement sch c = Inr [key_path_violation g]"
    if "sch = Some S \<and> (CHR ''.'' \<in> set g \<or> CHR ''['' \<in> set g)"
    using that a nf by (auto simp: messageGroupId_refinement_def)
  show "messageGroupId_refinement sch c =
          Inr (if g \<in> set names then [] else [key_not_found g])"
    if "sch = Some (z_object_schema names) \<and> CHR ''.'' \<notin> set g \<and> CHR ''['' \<notin> set g \<and>
        g \<notin> set Object_prototype_names"
    using that a nf by (simp add: messageGroupId_refinement_def query_z_object)
qed

theorem messageGroupId_rule_witness:
  "messageGroupId_refinement (Some (z_object_schema [''traceId'']))
     (group_config (Some (Some ''traceId''))) = Inr [] \<and>
   messageGroupId_refinement (Some (z_object_schema [''traceId'']))
     (group_config (Some (Some ''userId''))) =
     Inr [\<lparr>issue_path = [''queue'', ''messageGroupId''],
           issue_message = [Txt (''messageGroupId '' @ dq @ ''userId'' @ dq @
                                 '' does not exist in step'' @ sq @ ''s input schema'')]\<rparr>] \<and>
   messageGroupId_refinement (Some (z_object_schema [''traceId'']))
     (group_config (Some (Some ''user.id''))) = Inr [key_path_violation ''user.id''] \<and>
   messageGroupId_refinement None (group_config (Some (Some ''traceId''))) =
     Inr [schema_unavailable ''traceId''] \<and>
   messageGroupId_refinement None (group_config None) = Inr []"
proof -
  have q: "Option.bind (queue (group_config g)) messageGroupId = g" for g
    by (simp add: group_config_def)
  have n: "''traceId'' \<notin> set Object_prototype_names" "''userId'' \<notin> set Object_prototype_names"
    by (simp_all add: Object_prototype_names_def)
  have "messageGroupId_refinement (Some (z_object_schema [''traceId'']))
     (group_config (Some (Some ''traceId''))) = Inr []"
    using messageGroupId_rule [of "Some (z_object_schema [''traceId''])"
        "group_config (Some (Some ''traceId''))" "''traceId''" _ "[''traceId'']"] q n
    by simp
  moreover have "messageGroupId_refinement (Some (z_object_schema [''traceId'']))
     (group_config (Some (Some ''userId''))) = Inr [key_not_found ''userId'']"
    using messageGroupId_rule [of "Some (z_object_schema [''traceId''])"
        "group_config (Some (Some ''userId''))" "''userId''" _ "[''traceId'']"] q n
    by simp
  moreover have "messageGroupId_refinement (Some (z_object_schema [''traceId'']))
     (group_config (Some (Some ''user.id''))) = Inr [key_path_violation ''user.id'']"
    using messageGroupId_rule [of "Some (z_object_schema [''traceId''])"
        "group_config (Some (Some ''user.id''))" "''user.id''" "z_object_schema [''traceId'']"] q
    by simp
  moreover have "messageGroupId_refinement None (group_config (Some (Some ''traceId''))) =
     Inr [schema_unavailable ''traceId'']"
    using messageGroupId_rule [of None "group_config (Some (Some ''traceId''))" "''traceId''"] q
    by simp
  moreover have "messageGroupId_refinement None (group_config None) = Inr []"
    using messageGroupId_rule [of None "group_config None"] q by simp
  ultimately show ?thesis
    by (simp add: key_not_found_def group_issue_def)
qed

text \<open>
  The claim as written fails for a key that is present and empty: with no input schema the
  second rule would apply, but the callback returns at its first test and adds nothing, and
  the descriptor validates.
\<close>

theorem messageGroupId_rule_counterexample:
  "messageGroupId_refinement None (group_config (Some (Some ''''))) = Inr [] \<and>
   validateInfrastructureConfig
     (JObj [(''queue'', JObj [(''type'', JStr ''standard''), (''messageGroupId'', JStr '''')])])
     ''step'' None = Inr \<lparr>success = True, errors = None\<rparr>"
  by (simp add: group_config_def entry_defs refinement_defs schema_defs)

text \<open>
  The test \<^verbatim>\<open>messageGroupId in shape\<close> also holds for the names a plain object inherits,
  so such a key passes although the schema has no field of that name.
\<close>

lemma inherited_name_passes:
  "validateInfrastructureConfig (group_descriptor ''constructor'') ''step''
     (Some (z_object_schema [''traceId''])) = Inr \<lparr>success = True, errors = None\<rparr>"
  by (simp add: group_descriptor_def entry_defs refinement_defs schema_defs)

section \<open>Faults\<close>









section \<open>Structural mismatches and unknown keys\<close>

lemma map_of_filter_key:
  "P k \<Longrightarrow> map_of (filter (\<lambda>(k', x). P k') kv) k = map_of kv k"
  by (induction kv) auto

lemma get_prop_filter:
  "P k \<Longrightarrow> get_prop (JObj (filter (\<lambda>(k', x). P k') kv)) k = get_prop (JObj kv) k"
  by (simp add: map_of_filter_key)

lemma object_filter:
  "infrastructureObject p (JObj (filter (\<lambda>(k, x). k = ''handler'' \<or> k = ''queue'') kv)) =
   infrastructureObject p (JObj kv)"
  unfolding infrastructureObject_def jsval.case
  by (simp only: get_prop_filter [where P = "\<lambda>k. k = ''handler'' \<or> k = ''queue''"] simp_thms)

lemma object_not_object:
  "parsedType v \<noteq> ''object'' \<Longrightarrow>
   infrastructureObject p v = ([invalid_type p ''object'' v], INVALID)"
  by (cases v) (simp_all add: infrastructureObject_def)

lemma handler_not_object:
  "parsedType v \<noteq> ''object'' \<Longrightarrow> parsedType v \<noteq> ''undefined'' \<Longrightarrow>
   z_optional handlerBaseSchema_partial p v = ([invalid_type p ''object'' v], INVALID)"
  by (cases v) (simp_all add: z_optional_def handlerBaseSchema_partial_def)

lemma queue_not_object:
  "parsedType v \<noteq> ''object'' \<Longrightarrow> parsedType v \<noteq> ''undefined'' \<Longrightarrow>
   z_optional queueSchema_partial p v = ([invalid_type p ''object'' v], INVALID)"
  by (cases v) (simp_all add: z_optional_def queueSchema_partial_def)

lemma merge_field_INVALID [simp]: "merge_field r INVALID = INVALID"
  by (cases r) simp_all

lemma object_unfold:
  "infrastructureObject p (JObj kv) =
     (fst (z_optional handlerBaseSchema_partial (p @ [''handler''])
            (get_prop (JObj kv) ''handler'')) @
      fst (z_optional queueSchema_partial (p @ [''queue'']) (get_prop (JObj kv) ''queue'')),
      merge_field (merge_field (VALID (\<lambda>a b. \<lparr>handler = a, queue = b\<rparr>))
        (snd (z_optional handlerBaseSchema_partial (p @ [''handler''])
               (get_prop (JObj kv) ''handler''))))
        (snd (z_optional queueSchema_partial (p @ [''queue'']) (get_prop (JObj kv) ''queue''))))"
  by (simp add: infrastructureObject_def case_prod_beta)

lemma expected_object:
  "message (format_issue (invalid_type p ''object'' v)) =
     [Txt (if v = JUndefined then ''Required''
           else ''Expected object, received '' @ parsedType v)]"
  by (cases v) (simp_all add: format_issue_def invalid_type_def)

text \<open>
  Claim C7, as the code has it. A descriptor that is not an object fails with one violation
  at \<open>infrastructure\<close>; a handler or a queue that is present and not an object is reported
  at \<open>handler\<close> or \<open>queue\<close>. Keys of the descriptor other than \<open>handler\<close> and \<open>queue\<close> are
  not looked at: the result is the result for the descriptor without them.
\<close>

theorem structural_mismatches:
  "(parsedType v \<noteq> ''object'' \<longrightarrow>
      validateInfrastructureConfig v n sch =
        Inr \<lparr>success = False,
             errors = Some [\<lparr>path = ''infrastructure'',
                             message = [Txt (if v = JUndefined then ''Required''
                                             else ''Expected object, received '' @
                                                  parsedType v)]\<rparr>]\<rparr>) \<and>
   (parsedType (get_prop (JObj kv) ''handler'') \<noteq> ''object'' \<and>
    parsedType (get_prop (JObj kv) ''handler'') \<noteq> ''undefined'' \<longrightarrow>
      \<lparr>path = ''handler'',
       message = [Txt (''Expected object, received '' @
                       parsedType (get_prop (JObj kv) ''handler''))]\<rparr>
        \<in> set (reported (validateInfrastructureConfig (JObj kv) n sch))) \<and>
   (parsedType (get_prop (JObj kv) ''queue'') \<noteq> ''object'' \<and>
    parsedType (get_prop (JObj kv) ''queue'') \<noteq> ''undefined'' \<longrightarrow>
      \<lparr>path = ''queue'',
       message = [Txt (''Expected object, received '' @
                       parsedType (get_prop (JObj kv) ''queue''))]\<rparr>
        \<in> set (reported (validateInfrastructureConfig (JObj kv) n sch))) \<and>
   validateInfrastructureConfig
     (JObj (filter (\<lambda>(k, x). k = ''handler'' \<or> k = ''queue'') kv)) n sch =
   validateInfrastructureConfig (JObj kv) n sch"
proof (intro conjI impI)
  assume a: "parsedType v \<noteq> ''object''"
  have "parsed (snd (infrastructureObject [] v)) = None"
    by (simp add: object_not_object [OF a])
  from validate_aborted [OF this, of n sch] expected_object [of "[]" v]
  show "validateInfrastructureConfig v n sch =
        Inr \<lparr>success = False,
             errors = Some [\<lparr>path = ''infrastructure'',
                             message = [Txt (if v = JUndefined then ''Required''
                                             else ''Expected object, received '' @
                                                  parsedType v)]\<rparr>]\<rparr>"
    by (simp add: object_not_object [OF a] report_def) (simp add: format_issue_def invalid_type_def)
next
  let ?h = "get_prop (JObj kv) ''handler''"
  assume a: "parsedType ?h \<noteq> ''object'' \<and> parsedType ?h \<noteq> ''undefined''"
  then have u: "?h \<noteq> JUndefined" by auto
  from a have h: "z_optional handlerBaseSchema_partial ([] @ [''handler'']) ?h =
      ([invalid_type ([] @ [''handler'']) ''object'' ?h], INVALID)"
    by (intro handler_not_object) simp_all
  have ab: "parsed (snd (infrastructureObject [] (JObj kv))) = None"
    unfolding object_unfold h by simp
  have "invalid_type [''handler''] ''object'' ?h \<in> set (fst (infrastructureObject [] (JObj kv)))"
    unfolding object_unfold h by simp
  then have "format_issue (invalid_type [''handler''] ''object'' ?h)
      \<in> set (reported (validateInfrastructureConfig (JObj kv) n sch))"
    unfolding validate_aborted [OF ab] reported_report by simp
  moreover have "format_issue (invalid_type [''handler''] ''object'' ?h) =
      \<lparr>path = ''handler'', message = [Txt (''Expected object, received '' @ parsedType ?h)]\<rparr>"
    using expected_object [of "[''handler'']" ?h] u
    by (simp add: format_issue_def invalid_type_def)
  ultimately show "\<lparr>path = ''handler'',
       message = [Txt (''Expected object, received '' @ parsedType ?h)]\<rparr>
        \<in> set (reported (validateInfrastructureConfig (JObj kv) n sch))"
    by simp
next
  let ?q = "get_prop (JObj kv) ''queue''"
  assume a: "parsedType ?q \<noteq> ''object'' \<and> parsedType ?q \<noteq> ''undefined''"
  then have u: "?q \<noteq> JUndefined" by auto
  from a have q: "z_optional queueSchema_partial ([] @ [''queue'']) ?q =
      ([invalid_type ([] @ [''queue'']) ''object'' ?q], INVALID)"
    by (intro queue_not_object) simp_all
  have ab: "parsed (snd (infrastructureObject [] (JObj kv))) = None"
    unfolding object_unfold q by simp
  have "invalid_type [''queue''] ''object'' ?q \<in> set (fst (infrastructureObject [] (JObj kv)))"
    unfolding object_unfold q by simp
  then have "format_issue (invalid_type [''queue''] ''object'' ?q)
      \<in> set (reported (validateInfrastructureConfig (JObj kv) n sch))"
    unfolding validate_aborted [OF ab] reported_report by simp
  moreover have "format_issue (invalid_type [''queue''] ''object'' ?q) =
      \<lparr>path = ''queue'', message = [Txt (''Expected object, received '' @ parsedType ?q)]\<rparr>"
    using expected_object [of "[''queue'']" ?q] u
    by (simp add: format_issue_def invalid_type_def)
  ultimately show "\<lparr>path = ''queue'',
       message = [Txt (''Expected object, received '' @ parsedType ?q)]\<rparr>
        \<in> set (reported (validateInfrastructureConfig (JObj kv) n sch))"
    by simp
next
  show "validateInfrastructureConfig
     (JObj (filter (\<lambda>(k, x). k = ''handler'' \<or> k = ''queue'') kv)) n sch =
   validateInfrastructureConfig (JObj kv) n sch"
    by (simp add: validateInfrastructureConfig_def parse_def createInfrastructureSchema_def
        infrastructureSchema_def superRefine_def superRefine_throwing_def object_filter)
qed

theorem structural_mismatches_witness:
  "validateInfrastructureConfig (JStr ''large'') ''step'' None =
     Inr \<lparr>success = False,
          errors = Some [\<lparr>path = ''infrastructure'',
                          message = [Txt ''Expected object, received string'']\<rparr>]\<rparr> \<and>
   \<lparr>path = ''handler'', message = [Txt ''Expected object, received number'']\<rparr>
     \<in> set (reported (validateInfrastructureConfig (JObj [(''handler'', JNum 512)]) ''step'' None)) \<and>
   validateInfrastructureConfig
     (JObj [(''region'', JStr ''eu''), (''handler'', JObj [(''ram'', JNum 64)])]) ''step'' None =
   validateInfrastructureConfig (JObj [(''handler'', JObj [(''ram'', JNum 64)])]) ''step'' None"
proof -
  have "validateInfrastructureConfig (JStr ''large'') ''step'' None =
     Inr \<lparr>success = False,
          errors = Some [\<lparr>path = ''infrastructure'',
                          message = [Txt ''Expected object, received string'']\<rparr>]\<rparr>"
    using structural_mismatches [of "JStr ''large''" "''step''" None] by simp
  moreover have "\<lparr>path = ''handler'', message = [Txt ''Expected object, received number'']\<rparr>
     \<in> set (reported (validateInfrastructureConfig (JObj [(''handler'', JNum 512)]) ''step'' None))"
    using structural_mismatches [of _ "''step''" None "[(''handler'', JNum 512)]"] by simp
  moreover have "validateInfrastructureConfig
     (JObj [(''region'', JStr ''eu''), (''handler'', JObj [(''ram'', JNum 64)])]) ''step'' None =
   validateInfrastructureConfig (JObj [(''handler'', JObj [(''ram'', JNum 64)])]) ''step'' None"
    using structural_mismatches [of _ "''step''" None
        "[(''region'', JStr ''eu''), (''handler'', JObj [(''ram'', JNum 64)])]"]
    by simp
  ultimately show ?thesis by simp
qed

text \<open>
  The claim as written fails for an unknown key at the top level: the descriptor validates.
\<close>

theorem structural_mismatches_counterexample:
  "validateInfrastructureConfig (JObj [(''region'', JStr ''eu-west-1'')]) ''step'' None =
     Inr \<lparr>success = True, errors = None\<rparr>"
  by (simp add: entry_defs refinement_defs schema_defs)

section \<open>The number of retries\<close>

lemma check_issue_path: "i \<in> set (check_issue p x c) \<Longrightarrow> issue_path i = p"
  by (cases c) (auto split: if_splits)

lemma num_issues_path: "i \<in> set (num_issues cs p a) \<Longrightarrow> issue_path i = p"
  by (cases a) (auto simp: num_issues_def dest: check_issue_path)

lemma group_issue_path:
  "messageGroupId_refinement sch c = Inr added \<Longrightarrow> i \<in> set added \<Longrightarrow>
   issue_path i = [''queue'', ''messageGroupId'']"
  by (auto simp: messageGroupId_refinement_def Let_def schema_unavailable_def
      key_path_violation_def introspection_failure_def key_not_found_def group_issue_def
      query_shape_def split: option.splits sum.splits shape.splits if_splits)

lemma refinement_issue_path:
  "i \<in> set (proportionality_check c) \<union> set (visibility_check c) \<union> set (fifo_check c) \<Longrightarrow>
   issue_path i = [''handler'', ''cpu''] \<or> issue_path i = [''queue'', ''visibilityTimeout''] \<or>
   issue_path i = [''queue'', ''messageGroupId'']"
  by (auto simp: proportionality_check_cases visibility_check_cases fifo_check_def
      split: option.splits if_splits)

lemma retries_only:
  assumes added: "messageGroupId_refinement sch c = Inr added"
    and i: "i \<in> set (range_issues c) \<union> set (proportionality_check c) \<union>
      set (visibility_check c) \<union> set (fifo_check c) \<union> set added"
    and p: "path (format_issue i) = ''queue.maxRetries''"
  shows "i \<in> set (num_issues [Min 0 ''maxRetries cannot be negative'']
                    [''queue'', ''maxRetries''] (Option.bind (queue c) maxRetries))"
proof -
  consider "i \<in> set (num_issues [Min MIN_RAM_MB ''RAM must be at least 128 MB'',
                 Max MAX_RAM_MB ''RAM cannot exceed 10240 MB'']
       [''handler'', ''ram''] (Option.bind (handler c) ram))"
    | "i \<in> set (num_issues [Min MIN_TIMEOUT_SECONDS ''Timeout must be at least 1s'',
                 Max MAX_TIMEOUT_SECONDS ''Timeout cannot exceed 900s'']
       [''handler'', ''timeout''] (Option.bind (handler c) timeout))"
    | "i \<in> set (num_issues [Min 0 ''maxRetries cannot be negative'']
                    [''queue'', ''maxRetries''] (Option.bind (queue c) maxRetries))"
    | "i \<in> set (proportionality_check c) \<union> set (visibility_check c) \<union> set (fifo_check c)"
    | "i \<in> set added"
    using i by (auto simp: range_issues_def)
  then show ?thesis
  proof cases
    case 1
    from num_issues_path [OF this] p show ?thesis by (simp add: format_issue_def)
  next
    case 2
    from num_issues_path [OF this] p show ?thesis by (simp add: format_issue_def)
  next
    case 3
    then show ?thesis .
  next
    case 4
    from refinement_issue_path [OF this] p show ?thesis by (auto simp: format_issue_def)
  next
    case 5
    from group_issue_path [OF added this] p show ?thesis by (simp add: format_issue_def)
  qed
qed

text \<open>
  Where the issues of the object schema sit, whether the parse is aborted or not: an issue
  of a field schema sits at the path of the field.
\<close>

lemma z_number_path: "i \<in> set (fst (z_number cs p v)) \<Longrightarrow> issue_path i = p"
  by (cases v) (auto simp: z_number_def Let_def invalid_type_def dest: check_issue_path)

lemma z_string_path: "i \<in> set (fst (z_string p v)) \<Longrightarrow> issue_path i = p"
  by (cases v) (auto simp: z_string_def invalid_type_def)

lemma z_enum_path: "i \<in> set (fst (z_enum vals p v)) \<Longrightarrow> issue_path i = p"
  by (cases v) (auto simp: z_enum_def invalid_type_def split: if_splits)

lemma z_optional_path:
  assumes "\<And>i. i \<in> set (fst (inner p v)) \<Longrightarrow> issue_path i = p"
    and "i \<in> set (fst (z_optional inner p v))"
  shows "issue_path i = p"
  using assms by (cases v; cases "inner p v") (auto simp: z_optional_def)

lemma z_nullable_path:
  assumes "\<And>i. i \<in> set (fst (inner p v)) \<Longrightarrow> issue_path i = p"
    and "i \<in> set (fst (z_nullable inner p v))"
  shows "issue_path i = p"
  using assms by (cases v; cases "inner p v") (auto simp: z_nullable_def)

lemma z_optional_again_path:
  assumes "\<And>i. i \<in> set (fst (inner p v)) \<Longrightarrow> issue_path i = p"
    and "i \<in> set (fst (z_optional_again inner p v))"
  shows "issue_path i = p"
  using assms by (cases v) (auto simp: z_optional_again_def)

lemma handler_field_paths:
  "i \<in> set (fst (z_optional ram_schema p x)) \<Longrightarrow> issue_path i = p"
  "i \<in> set (fst (z_optional timeout_schema p x)) \<Longrightarrow> issue_path i = p"
  "i \<in> set (fst (z_optional_again cpu_schema p x)) \<Longrightarrow> issue_path i = p"
  "i \<in> set (fst (z_optional machineType_schema p x)) \<Longrightarrow> issue_path i = p"
  unfolding ram_schema_def timeout_schema_def cpu_schema_def machineType_schema_def
  by (erule z_optional_path [rotated] z_optional_again_path [rotated],
      (erule z_optional_path [rotated])?, erule z_number_path z_enum_path)+

lemma queue_field_paths:
  "i \<in> set (fst (z_optional type_schema p x)) \<Longrightarrow> issue_path i = p"
  "i \<in> set (fst (z_optional visibilityTimeout_schema p x)) \<Longrightarrow> issue_path i = p"
  "i \<in> set (fst (z_optional_again messageGroupId_schema p x)) \<Longrightarrow> issue_path i = p"
  "i \<in> set (fst (z_optional retryStrategy_schema p x)) \<Longrightarrow> issue_path i = p"
  unfolding type_schema_def visibilityTimeout_schema_def messageGroupId_schema_def
    retryStrategy_schema_def
  by (erule z_optional_path [rotated] z_optional_again_path [rotated],
      (erule z_optional_path [rotated])?, (erule z_nullable_path [rotated])?,
      erule z_number_path z_enum_path z_string_path)+

lemma handler_unfold:
  "fst (handlerBaseSchema_partial p (JObj kv)) =
     fst (z_optional ram_schema (p @ [''ram'']) (get_prop (JObj kv) ''ram'')) @
     fst (z_optional timeout_schema (p @ [''timeout'']) (get_prop (JObj kv) ''timeout'')) @
     fst (z_optional_again cpu_schema (p @ [''cpu'']) (get_prop (JObj kv) ''cpu'')) @
     fst (z_optional machineType_schema (p @ [''machineType''])
           (get_prop (JObj kv) ''machineType''))"
  by (simp add: handlerBaseSchema_partial_def case_prod_beta)

lemma queue_unfold:
  "fst (queueSchema_partial p (JObj kv)) =
     fst (z_optional type_schema (p @ [''type'']) (get_prop (JObj kv) ''type'')) @
     fst (z_optional visibilityTimeout_schema (p @ [''visibilityTimeout''])
           (get_prop (JObj kv) ''visibilityTimeout'')) @
     fst (z_optional_again messageGroupId_schema (p @ [''messageGroupId''])
           (get_prop (JObj kv) ''messageGroupId'')) @
     fst (z_optional maxRetries_schema (p @ [''maxRetries''])
           (get_prop (JObj kv) ''maxRetries'')) @
     fst (z_optional retryStrategy_schema (p @ [''retryStrategy''])
           (get_prop (JObj kv) ''retryStrategy''))"
  by (simp add: queueSchema_partial_def case_prod_beta)

lemma handler_issue_not_retries:
  assumes "i \<in> set (fst (z_optional handlerBaseSchema_partial [''handler''] h))"
  shows "path (format_issue i) \<noteq> ''queue.maxRetries''"
proof (cases h)
  case (JObj kv)
  from assms have "i \<in> set (fst (handlerBaseSchema_partial [''handler''] (JObj kv)))"
    by (cases "handlerBaseSchema_partial [''handler''] (JObj kv)")
       (simp add: JObj z_optional_def)
  then have "issue_path i \<in> {[''handler'', ''ram''], [''handler'', ''timeout''],
      [''handler'', ''cpu''], [''handler'', ''machineType'']}"
    unfolding handler_unfold by (auto dest: handler_field_paths)
  then show ?thesis by (auto simp: format_issue_def)
qed (use assms in \<open>auto simp: z_optional_def handlerBaseSchema_partial_def invalid_type_def
      format_issue_def\<close>)

lemma queue_issue_retries:
  assumes "i \<in> set (fst (z_optional queueSchema_partial [''queue''] (JObj kv)))"
    and "path (format_issue i) = ''queue.maxRetries''"
  shows "i \<in> set (fst (z_optional maxRetries_schema [''queue'', ''maxRetries'']
                         (get_prop (JObj kv) ''maxRetries'')))"
proof -
  from assms(1) have "i \<in> set (fst (queueSchema_partial [''queue''] (JObj kv)))"
    by (cases "queueSchema_partial [''queue''] (JObj kv)") (simp add: z_optional_def)
  then consider
      "issue_path i \<in> {[''queue'', ''type''], [''queue'', ''visibilityTimeout''],
         [''queue'', ''messageGroupId''], [''queue'', ''retryStrategy'']}"
    | "i \<in> set (fst (z_optional maxRetries_schema [''queue'', ''maxRetries'']
                         (get_prop (JObj kv) ''maxRetries'')))"
    unfolding queue_unfold by (auto dest: queue_field_paths)
  then show ?thesis
  proof cases
    case 1
    with assms(2) show ?thesis by (auto simp: format_issue_def)
  next
    case 2
    then show ?thesis .
  qed
qed

lemma retries_field:
  "fst (z_optional maxRetries_schema p (JNum m)) =
     (if m < 0 then [\<lparr>issue_path = p, issue_message = [Txt ''maxRetries cannot be negative'']\<rparr>]
      else [])"
  by (simp add: z_optional_def maxRetries_schema_def z_number_def)

lemma queue_is_object:
  assumes "get_prop (get_prop v ''queue'') ''maxRetries'' = JNum m"
  obtains kv qkv where "v = JObj kv" "get_prop (JObj kv) ''queue'' = JObj qkv"
    "get_prop (JObj qkv) ''maxRetries'' = JNum m"
proof -
  from assms obtain kv where v: "v = JObj kv"
    by (cases v) simp_all
  from assms obtain qkv where "get_prop v ''queue'' = JObj qkv"
    by (cases "get_prop v ''queue''") simp_all
  with assms v that show ?thesis by simp
qed

lemma object_retries_issues:
  assumes "get_prop (get_prop v ''queue'') ''maxRetries'' = JNum m"
  shows "(\<exists>i \<in> set (fst (infrastructureObject [] v)).
            path (format_issue i) = ''queue.maxRetries'') \<longleftrightarrow> m < 0"
    and "\<lparr>path = ''queue.maxRetries'', message = [Txt ''maxRetries cannot be negative'']\<rparr>
           \<in> format_issue ` set (fst (infrastructureObject [] v)) \<longleftrightarrow> m < 0"
proof -
  from assms obtain kv qkv where v: "v = JObj kv" and q: "get_prop (JObj kv) ''queue'' = JObj qkv"
    and m: "get_prop (JObj qkv) ''maxRetries'' = JNum m"
    by (rule queue_is_object)
  let ?H = "fst (z_optional handlerBaseSchema_partial [''handler''] (get_prop (JObj kv) ''handler''))"
  let ?Q = "fst (z_optional queueSchema_partial [''queue''] (JObj qkv))"
  let ?issue = "\<lparr>issue_path = [''queue'', ''maxRetries''],
                 issue_message = [Txt ''maxRetries cannot be negative'']\<rparr>"
  have all: "set (fst (infrastructureObject [] v)) = set ?H \<union> set ?Q"
    unfolding v object_unfold q by simp
  have own: "set (fst (z_optional maxRetries_schema [''queue'', ''maxRetries'']
                         (get_prop (JObj qkv) ''maxRetries''))) =
               (if m < 0 then {?issue} else {})"
    unfolding m retries_field by simp
  have only: "i = ?issue \<and> m < 0"
    if "i \<in> set (fst (infrastructureObject [] v))"
      and "path (format_issue i) = ''queue.maxRetries''" for i
  proof -
    from that handler_issue_not_retries [of i] have "i \<in> set ?Q"
      unfolding all by blast
    from queue_issue_retries [OF this that(2)] show ?thesis
      unfolding own by (simp split: if_splits)
  qed
  have present: "?issue \<in> set (fst (infrastructureObject [] v))" if "m < 0"
  proof -
    have "?issue \<in> set (fst (queueSchema_partial [''queue''] (JObj qkv)))"
      unfolding queue_unfold m retries_field using that by simp
    then have "?issue \<in> set ?Q"
      by (cases "queueSchema_partial [''queue''] (JObj qkv)") (simp add: z_optional_def)
    then show ?thesis unfolding all by simp
  qed
  have formatted: "format_issue ?issue =
      \<lparr>path = ''queue.maxRetries'', message = [Txt ''maxRetries cannot be negative'']\<rparr>"
    by (simp add: format_issue_def)
  show "(\<exists>i \<in> set (fst (infrastructureObject [] v)).
            path (format_issue i) = ''queue.maxRetries'') \<longleftrightarrow> m < 0"
  proof
    assume "\<exists>i \<in> set (fst (infrastructureObject [] v)).
            path (format_issue i) = ''queue.maxRetries''"
    with only show "m < 0" by blast
  next
    assume "m < 0"
    from present [OF this] formatted
    show "\<exists>i \<in> set (fst (infrastructureObject [] v)).
            path (format_issue i) = ''queue.maxRetries''"
      by (intro bexI [where x = ?issue]) simp_all
  qed
  show "\<lparr>path = ''queue.maxRetries'', message = [Txt ''maxRetries cannot be negative'']\<rparr>
           \<in> format_issue ` set (fst (infrastructureObject [] v)) \<longleftrightarrow> m < 0"
  proof
    assume "\<lparr>path = ''queue.maxRetries'', message = [Txt ''maxRetries cannot be negative'']\<rparr>
           \<in> format_issue ` set (fst (infrastructureObject [] v))"
    then obtain i where "i \<in> set (fst (infrastructureObject [] v))"
      "format_issue i =
         \<lparr>path = ''queue.maxRetries'', message = [Txt ''maxRetries cannot be negative'']\<rparr>"
      by auto
    with only [of i] show "m < 0" by simp
  next
    assume "m < 0"
    from present [OF this] formatted
    show "\<lparr>path = ''queue.maxRetries'', message = [Txt ''maxRetries cannot be negative'']\<rparr>
           \<in> format_issue ` set (fst (infrastructureObject [] v))"
      by (metis imageI)
  qed
qed

text \<open>
  Claim C8, as the code has it. The schema of \<open>maxRetries\<close> is a number with a lower bound
  and no test for integers: a number is accepted if and only if it is at least 0, whether it
  is an integer or not. For every descriptor whose queue has a number as \<open>maxRetries\<close>, a
  violation at \<open>queue.maxRetries\<close> is reported exactly when the number is negative and
  the callback that checks the message group returns, and it is the violation with the
  message of the lower bound; and a descriptor that has nothing but \<open>maxRetries\<close>
  validates exactly when the number is not negative.
\<close>

theorem maxRetries_rule:
  "fst (z_optional maxRetries_schema p (JNum m)) =
     (if m < 0 then [\<lparr>issue_path = p, issue_message = [Txt ''maxRetries cannot be negative'']\<rparr>]
      else []) \<and>
   (get_prop (get_prop v ''queue'') ''maxRetries'' = JNum m \<longrightarrow>
      ((\<exists>e \<in> set (reported (validateInfrastructureConfig v n sch)).
           path e = ''queue.maxRetries'') \<longleftrightarrow> m < 0 \<and> callback_returns sch v) \<and>
      (\<lparr>path = ''queue.maxRetries'', message = [Txt ''maxRetries cannot be negative'']\<rparr>
         \<in> set (reported (validateInfrastructureConfig v n sch))
         \<longleftrightarrow> m < 0 \<and> callback_returns sch v)) \<and>
   validateInfrastructureConfig (retries_descriptor m) n sch =
     Inr (if m < 0 then
            \<lparr>success = False,
             errors = Some [\<lparr>path = ''queue.maxRetries'',
                             message = [Txt ''maxRetries cannot be negative'']\<rparr>]\<rparr>
          else \<lparr>success = True, errors = None\<rparr>)"
proof (intro conjI impI)
  show "fst (z_optional maxRetries_schema p (JNum m)) =
     (if m < 0 then [\<lparr>issue_path = p, issue_message = [Txt ''maxRetries cannot be negative'']\<rparr>]
      else [])"
    by (rule retries_field)
next
  assume a: "get_prop (get_prop v ''queue'') ''maxRetries'' = JNum m"
  let ?R = "reported (validateInfrastructureConfig v n sch)"
  let ?violation =
    "\<lparr>path = ''queue.maxRetries'', message = [Txt ''maxRetries cannot be negative'']\<rparr>"
  have "((\<exists>e \<in> set ?R. path e = ''queue.maxRetries'') \<longleftrightarrow> m < 0 \<and> callback_returns sch v) \<and>
        (?violation \<in> set ?R \<longleftrightarrow> m < 0 \<and> callback_returns sch v)"
  proof (cases "parsed (snd (infrastructureObject [] v))")
    case None
    have r: "callback_returns sch v"
      using None by (rule callback_returns_aborted)
    have R: "set ?R = format_issue ` set (fst (infrastructureObject [] v))"
      unfolding validate_aborted [OF None] reported_report by simp
    from object_retries_issues [OF a] r show ?thesis
      unfolding R by simp
  next
    case (Some c)
    from object_parsed [OF Some] a have f: "Option.bind (queue c) maxRetries = Some m"
      by simp
    have own: "set (num_issues [Min 0 ''maxRetries cannot be negative'']
                      [''queue'', ''maxRetries''] (Option.bind (queue c) maxRetries)) =
        (if m < 0 then {\<lparr>issue_path = [''queue'', ''maxRetries''],
                          issue_message = [Txt ''maxRetries cannot be negative'']\<rparr>} else {})"
      by (simp add: num_issues_def f)
    show ?thesis
    proof (cases "messageGroupId_refinement sch c")
      case (Inr added)
      then have r: "callback_returns sch v" by (simp add: callback_returns_def Some)
      have only: "m < 0" if "e \<in> set ?R" "path e = ''queue.maxRetries''" for e
      proof -
        from that obtain i where
          "i \<in> set (range_issues c) \<union> set (proportionality_check c) \<union>
             set (visibility_check c) \<union> set (fifo_check c) \<union> set added"
          "path (format_issue i) = ''queue.maxRetries''"
          unfolding reported_valid_set [OF Some Inr] by blast
        from retries_only [OF Inr this] show "m < 0"
          unfolding own by (simp split: if_splits)
      qed
      have present: "?violation \<in> set ?R" if "m < 0"
      proof -
        from that have "\<lparr>issue_path = [''queue'', ''maxRetries''],
                     issue_message = [Txt ''maxRetries cannot be negative'']\<rparr>
            \<in> set (range_issues c)"
          by (simp add: range_issues_def own)
        then have "format_issue \<lparr>issue_path = [''queue'', ''maxRetries''],
                     issue_message = [Txt ''maxRetries cannot be negative'']\<rparr> \<in> set ?R"
          unfolding reported_valid_set [OF Some Inr] by blast
        then show ?thesis by (simp add: format_issue_def)
      qed
      have "(\<exists>e \<in> set ?R. path e = ''queue.maxRetries'') \<longleftrightarrow> m < 0"
      proof
        assume "\<exists>e \<in> set ?R. path e = ''queue.maxRetries''"
        with only show "m < 0" by blast
      next
        assume "m < 0"
        from present [OF this] show "\<exists>e \<in> set ?R. path e = ''queue.maxRetries''"
          by (rule bexI [rotated]) simp
      qed
      moreover have "?violation \<in> set ?R \<longleftrightarrow> m < 0"
        using only [of ?violation] present by auto
      ultimately show ?thesis using r by simp
    next
      case (Inl e)
      then have r: "\<not> callback_returns sch v" by (simp add: callback_returns_def Some)
      have "path x \<noteq> ''queue.maxRetries''" if "x \<in> set ?R" for x
        using that reported_thrown_path [of x e] unfolding validate_throws [OF Some Inl]
        by auto
      then have "\<not> (\<exists>e \<in> set ?R. path e = ''queue.maxRetries'')" "?violation \<notin> set ?R"
        by fastforce+
      with r show ?thesis by simp
    qed
  qed
  then show "(\<exists>e \<in> set ?R. path e = ''queue.maxRetries'') \<longleftrightarrow> m < 0 \<and> callback_returns sch v"
    and "?violation \<in> set ?R \<longleftrightarrow> m < 0 \<and> callback_returns sch v"
    by simp_all
next
  show "validateInfrastructureConfig (retries_descriptor m) n sch =
     Inr (if m < 0 then
            \<lparr>success = False,
             errors = Some [\<lparr>path = ''queue.maxRetries'',
                             message = [Txt ''maxRetries cannot be negative'']\<rparr>]\<rparr>
          else \<lparr>success = True, errors = None\<rparr>)"
    by (simp add: retries_descriptor_def entry_defs refinement_defs schema_defs)
qed

text \<open>
  Three descriptors: a negative number alone; a negative number beside a queue type outside
  the enumeration, where both violations are reported; and the number 3.
\<close>

theorem maxRetries_rule_witness:
  "\<lparr>path = ''queue.maxRetries'', message = [Txt ''maxRetries cannot be negative'']\<rparr>
     \<in> set (reported (validateInfrastructureConfig (retries_descriptor (- 1)) ''step'' None)) \<and>
   \<not> structurally_valid (JObj [(''queue'', JObj [(''type'', JStr ''y''), (''maxRetries'', JNum (- 2))])]) \<and>
   \<lparr>path = ''queue.maxRetries'', message = [Txt ''maxRetries cannot be negative'']\<rparr>
     \<in> set (reported (validateInfrastructureConfig
         (JObj [(''queue'', JObj [(''type'', JStr ''y''), (''maxRetries'', JNum (- 2))])])
         ''step'' None)) \<and>
   validateInfrastructureConfig (retries_descriptor 3) ''step'' None =
     Inr \<lparr>success = True, errors = None\<rparr>"
proof -
  have q: "get_prop (get_prop (retries_descriptor m) ''queue'') ''maxRetries'' = JNum m" for m
    by (simp add: retries_descriptor_def)
  have q': "get_prop (get_prop
      (JObj [(''queue'', JObj [(''type'', JStr ''y''), (''maxRetries'', JNum (- 2))])])
      ''queue'') ''maxRetries'' = JNum (- 2)"
    by simp
  have neg: "(- 1 :: real) < 0" "(- 2 :: real) < 0" by simp_all
  note r = callback_returns_None
  have s: "\<not> structurally_valid
      (JObj [(''queue'', JObj [(''type'', JStr ''y''), (''maxRetries'', JNum (- 2))])])"
    by (simp add: structurally_valid_def schema_defs)
  from maxRetries_rule [of "[]" "- 1" "retries_descriptor (- 1)" "''step''" None] q neg r
  have 1: "\<lparr>path = ''queue.maxRetries'', message = [Txt ''maxRetries cannot be negative'']\<rparr>
     \<in> set (reported (validateInfrastructureConfig (retries_descriptor (- 1)) ''step'' None))"
    by blast
  from maxRetries_rule [of "[]" "- 2"
      "JObj [(''queue'', JObj [(''type'', JStr ''y''), (''maxRetries'', JNum (- 2))])]"
      "''step''" None] q' neg r
  have 2: "\<lparr>path = ''queue.maxRetries'', message = [Txt ''maxRetries cannot be negative'']\<rparr>
     \<in> set (reported (validateInfrastructureConfig
         (JObj [(''queue'', JObj [(''type'', JStr ''y''), (''maxRetries'', JNum (- 2))])])
         ''step'' None))"
    by blast
  from maxRetries_rule [of "[]" 3 JNull "''step''" None]
  have 3: "validateInfrastructureConfig (retries_descriptor 3) ''step'' None =
     Inr \<lparr>success = True, errors = None\<rparr>"
    by simp
  from 1 2 3 s show ?thesis by blast
qed

text \<open>The claim as written fails for a number that is not an integer: 3.5 is accepted.\<close>

theorem maxRetries_rule_counterexample:
  "validateInfrastructureConfig (retries_descriptor 3.5) ''step'' None =
     Inr \<lparr>success = True, errors = None\<rparr>"
  by (simp add: retries_descriptor_def entry_defs refinement_defs schema_defs)

section \<open>The two entry points\<close>

text \<open>
  The step name is not used, and the entry point with a step name is the other one with the
  \<^verbatim>\<open>createInfrastructureSchema\<close> of the step validator as its factory. Whether the two
  entry points of the repository agree is decided by the factory of the \<^verbatim>\<open>./schemas\<close>
  module.
\<close>

lemma stepName_unused:
  "validateInfrastructureConfig v n sch = validateInfrastructureConfig v n' sch"
  by (simp add: validateInfrastructureConfig_def)

lemma same_factory:
  "validateInfrastructureConfig2 (\<lambda>inputSchema. Inr (createInfrastructureSchema inputSchema)) v sch =
   validateInfrastructureConfig v n sch"
  by (simp add: validateInfrastructureConfig2_def validateInfrastructureConfig_def)

end
